theory Spec2Isabelle
  imports Complex_Main "HOL-Library.Sublist" "HOL-Library.AList" "HOL-Library.Multiset"
begin

section \<open>JavaScript values\<close>

text \<open>
  The datasets of \<^verbatim>\<open>dashboard.js\<close> are JSON arrays of flat objects: every field of a
  record holds a primitive. Numbers are modelled in exact arithmetic (\<open>rat\<close>) next to
  the three special values of the number type; rounding to IEEE doubles is not modelled.
  Strings are the bytes of the UTF-8 text, so every ASCII character is one \<open>char\<close>.
  A record is the list of its own properties (where a name stands twice, the first pair
  is the property); two records with the same list are the same record.
\<close>

datatype prim = Undefined | Null | Bool bool | Num rat | NaN | PosInf | NegInf | Str string

type_synonym jsrecord = "(string \<times> prim) list"

text \<open>
  A value of the program is a primitive, a record of a dataset, or something inherited
  from \<^verbatim>\<open>Object.prototype\<close>: the prototype object itself (what reading
  \<^verbatim>\<open>__proto__\<close> gives) or one of its built-in functions, named by the function's name.
\<close>

datatype jsval = Prim prim | Rec jsrecord | ObjectPrototype | Native string

subsection \<open>Number to string\<close>

definition digit_char :: "nat \<Rightarrow> char" where
  "digit_char d = ''0123456789'' ! d"

fun digits :: "nat \<Rightarrow> string" where
  "digits n = (if n < 10 then [digit_char n] else digits (n div 10) @ [digit_char (n mod 10)])"

declare digits.simps [simp del]

text \<open>
  \<open>scale10 f p q m\<close> multiplies the positive fraction \<open>p / q\<close> by ten until it is an
  integer (at most \<open>f\<close> times), \<open>strip10\<close> removes the trailing zeros of an integer:
  together they give the digits \<open>s\<close> and the exponent \<open>e\<close> with \<open>x = s * 10 ^ e\<close>
  that \<^verbatim>\<open>Number::toString\<close> starts from. A number with no finite decimal expansion
  (none comes from JSON text or from sums of such numbers) is cut after 1100 digits.
\<close>

fun scale10 :: "nat \<Rightarrow> int \<Rightarrow> int \<Rightarrow> int \<Rightarrow> nat \<times> int" where
  "scale10 f p q m =
     (if f = 0 \<or> q dvd p then (nat (p div q), - m) else scale10 (f - 1) (p * 10) q (m + 1))"

declare scale10.simps [simp del]

fun strip10 :: "nat \<Rightarrow> int \<Rightarrow> nat \<times> int" where
  "strip10 s e = (if s \<noteq> 0 \<and> s mod 10 = 0 then strip10 (s div 10) (e + 1) else (s, e))"

declare strip10.simps [simp del]

definition exponent_text :: "int \<Rightarrow> string" where
  "exponent_text e = ''e'' @ (if e < 0 then ''-'' else ''+'') @ digits (nat \<bar>e\<bar>)"

text \<open>The text of a positive finite number, after the cases of \<^verbatim>\<open>Number::toString\<close>.\<close>

definition positive_to_string :: "rat \<Rightarrow> string" where
  "positive_to_string x =
     (let (p, q) = quotient_of x;
          (s0, e0) = scale10 1100 p q 0;
          (s, e) = strip10 s0 e0;
          ds = digits s;
          k = int (length ds);
          n = k + e
      in if k \<le> n \<and> n \<le> 21 then ds @ replicate (nat (n - k)) CHR ''0''
         else if 0 < n \<and> n \<le> 21 then take (nat n) ds @ ''.'' @ drop (nat n) ds
         else if - 6 < n \<and> n \<le> 0 then ''0.'' @ replicate (nat (- n)) CHR ''0'' @ ds
         else if k = 1 then ds @ exponent_text (n - 1)
         else take 1 ds @ ''.'' @ drop 1 ds @ exponent_text (n - 1))"

definition number_to_string :: "rat \<Rightarrow> string" where
  "number_to_string x =
     (if x = 0 then ''0''
      else if x < 0 then ''-'' @ positive_to_string (- x)
      else positive_to_string x)"

subsection \<open>Conversions\<close>

fun prim_to_string :: "prim \<Rightarrow> string" where
  "prim_to_string Undefined = ''undefined''"
| "prim_to_string Null = ''null''"
| "prim_to_string (Bool b) = (if b then ''true'' else ''false'')"
| "prim_to_string (Num x) = number_to_string x"
| "prim_to_string NaN = ''NaN''"
| "prim_to_string PosInf = ''Infinity''"
| "prim_to_string NegInf = ''-Infinity''"
| "prim_to_string (Str s) = s"

text \<open>
  The source text of a built-in function, as V8 prints it. \<^verbatim>\<open>ToString\<close> of a record
  is never taken by this program (the fields of a record are primitives); the text
  given is that of an object with the inherited \<^verbatim>\<open>toString\<close>.
\<close>

definition native_source :: "string \<Rightarrow> string" where
  "native_source name = ''function '' @ name @ ''() { [native code] }''"

fun ToString :: "jsval \<Rightarrow> string" where
  "ToString (Prim p) = prim_to_string p"
| "ToString (Rec r) = ''[object Object]''"
| "ToString ObjectPrototype = ''[object Object]''"
| "ToString (Native name) = native_source name"

fun prim_truthy :: "prim \<Rightarrow> bool" where
  "prim_truthy Undefined = False"
| "prim_truthy Null = False"
| "prim_truthy (Bool b) = b"
| "prim_truthy (Num x) = (x \<noteq> 0)"
| "prim_truthy NaN = False"
| "prim_truthy PosInf = True"
| "prim_truthy NegInf = True"
| "prim_truthy (Str s) = (s \<noteq> [])"

fun truthy :: "jsval \<Rightarrow> bool" where
  "truthy (Prim p) = prim_truthy p"
| "truthy (Rec r) = True"
| "truthy ObjectPrototype = True"
| "truthy (Native name) = True"

text \<open>\<^verbatim>\<open>a ?? b\<close> and \<^verbatim>\<open>a || b\<close>.\<close>

definition nullish_or :: "jsval \<Rightarrow> jsval \<Rightarrow> jsval" where
  "nullish_or a b = (if a = Prim Undefined \<or> a = Prim Null then b else a)"

definition js_or :: "jsval \<Rightarrow> jsval \<Rightarrow> jsval" where
  "js_or a b = (if truthy a then a else b)"

subsection \<open>String to number\<close>

text \<open>
  \<^verbatim>\<open>Number(s)\<close> for a string: white space and line terminators are trimmed at both
  ends, the empty text is 0, and what remains must be a decimal literal (with an
  optional sign, fraction and exponent, or \<^verbatim>\<open>Infinity\<close>) or an unsigned
  hexadecimal, octal or binary integer; anything else is \<^verbatim>\<open>NaN\<close>. The value is
  exact: overflow to \<^verbatim>\<open>Infinity\<close> and underflow to 0 are not modelled.
\<close>

definition white_space :: "string list" where
  "white_space =
     [[CHR 0x09], [CHR 0x0A], [CHR 0x0B], [CHR 0x0C], [CHR 0x0D], [CHR 0x20],
      [CHR 0xC2, CHR 0xA0], [CHR 0xE1, CHR 0x9A, CHR 0x80],
      [CHR 0xE2, CHR 0x80, CHR 0x80], [CHR 0xE2, CHR 0x80, CHR 0x81],
      [CHR 0xE2, CHR 0x80, CHR 0x82], [CHR 0xE2, CHR 0x80, CHR 0x83],
      [CHR 0xE2, CHR 0x80, CHR 0x84], [CHR 0xE2, CHR 0x80, CHR 0x85],
      [CHR 0xE2, CHR 0x80, CHR 0x86], [CHR 0xE2, CHR 0x80, CHR 0x87],
      [CHR 0xE2, CHR 0x80, CHR 0x88], [CHR 0xE2, CHR 0x80, CHR 0x89],
      [CHR 0xE2, CHR 0x80, CHR 0x8A], [CHR 0xE2, CHR 0x80, CHR 0xA8],
      [CHR 0xE2, CHR 0x80, CHR 0xA9], [CHR 0xE2, CHR 0x80, CHR 0xAF],
      [CHR 0xE2, CHR 0x81, CHR 0x9F], [CHR 0xE3, CHR 0x80, CHR 0x80],
      [CHR 0xEF, CHR 0xBB, CHR 0xBF]]"

function strip_start :: "string list \<Rightarrow> string \<Rightarrow> string" where
  "strip_start ws s =
     (case find (\<lambda>w. w \<noteq> [] \<and> prefix w s) ws of
        None \<Rightarrow> s
      | Some w \<Rightarrow> strip_start ws (drop (length w) s))"
  by pat_completeness auto
termination
proof (relation "measure (\<lambda>(ws, s). length s)")
  show "wf (measure (\<lambda>(ws, s). length s))" by simp
next
  fix ws :: "string list" and s w :: string
  assume "find (\<lambda>w. w \<noteq> [] \<and> prefix w s) ws = Some w"
  then have "w \<noteq> []" and "prefix w s"
    by (auto simp: find_Some_iff)
  then have "s \<noteq> []" by auto
  with \<open>w \<noteq> []\<close> show "((ws, drop (length w) s), (ws, s)) \<in> measure (\<lambda>(ws, s). length s)"
    by simp
qed

declare strip_start.simps [simp del]

definition trim :: "string \<Rightarrow> string" where
  "trim s = rev (strip_start (map rev white_space) (rev (strip_start white_space s)))"

definition digit_value :: "char \<Rightarrow> nat" where
  "digit_value c =
     (let n = of_char c :: nat
      in if 48 \<le> n \<and> n \<le> 57 then n - 48
         else if 97 \<le> n \<and> n \<le> 102 then n - 87
         else if 65 \<le> n \<and> n \<le> 70 then n - 55
         else 16)"

definition digits_in :: "nat \<Rightarrow> string \<Rightarrow> bool" where
  "digits_in base s = (s \<noteq> [] \<and> list_all (\<lambda>c. digit_value c < base) s)"

definition number_in :: "nat \<Rightarrow> string \<Rightarrow> nat" where
  "number_in base s = foldl (\<lambda>n c. base * n + digit_value c) 0 s"

definition is_digit :: "char \<Rightarrow> bool" where
  "is_digit c = (digit_value c < 10)"

definition exponent_part :: "string \<Rightarrow> int option" where
  "exponent_part t =
     (if t = [] then Some 0
      else if hd t = CHR ''e'' \<or> hd t = CHR ''E'' then
        (let r = tl t;
             neg = (r \<noteq> [] \<and> hd r = CHR ''-'');
             ds = (if r \<noteq> [] \<and> (hd r = CHR ''+'' \<or> hd r = CHR ''-'') then tl r else r)
         in if digits_in 10 ds
            then Some (if neg then - int (number_in 10 ds) else int (number_in 10 ds))
            else None)
      else None)"

definition unsigned_decimal :: "string \<Rightarrow> rat option" where
  "unsigned_decimal t =
     (let ip = takeWhile is_digit t;
          r1 = dropWhile is_digit t;
          dot = (r1 \<noteq> [] \<and> hd r1 = CHR ''.'');
          fp = (if dot then takeWhile is_digit (tl r1) else []);
          r2 = (if dot then dropWhile is_digit (tl r1) else r1)
      in if ip = [] \<and> fp = [] then None
         else case exponent_part r2 of
                None \<Rightarrow> None
              | Some e \<Rightarrow>
                  Some (of_nat (number_in 10 (ip @ fp)) * power_int 10 (e - int (length fp))))"

definition signed_decimal :: "string \<Rightarrow> prim" where
  "signed_decimal t =
     (let neg = (t \<noteq> [] \<and> hd t = CHR ''-'');
          u = (if t \<noteq> [] \<and> (hd t = CHR ''+'' \<or> hd t = CHR ''-'') then tl t else t)
      in if u = ''Infinity'' then (if neg then NegInf else PosInf)
         else case unsigned_decimal u of
                None \<Rightarrow> NaN
              | Some x \<Rightarrow> Num (if neg then - x else x))"

definition StringToNumber :: "string \<Rightarrow> prim" where
  "StringToNumber s =
     (let t = trim s;
          p = take 2 t;
          r = drop 2 t
      in if t = [] then Num 0
         else if p = ''0x'' \<or> p = ''0X'' then
                (if digits_in 16 r then Num (of_nat (number_in 16 r)) else NaN)
         else if p = ''0o'' \<or> p = ''0O'' then
                (if digits_in 8 r then Num (of_nat (number_in 8 r)) else NaN)
         else if p = ''0b'' \<or> p = ''0B'' then
                (if digits_in 2 r then Num (of_nat (number_in 2 r)) else NaN)
         else signed_decimal t)"

subsection \<open>Operators\<close>

fun prim_to_number :: "prim \<Rightarrow> prim" where
  "prim_to_number Undefined = NaN"
| "prim_to_number Null = Num 0"
| "prim_to_number (Bool b) = Num (if b then 1 else 0)"
| "prim_to_number (Str s) = StringToNumber s"
| "prim_to_number n = n"

text \<open>\<^verbatim>\<open>ToPrimitive\<close>: an object gives the text of its \<^verbatim>\<open>toString\<close>.\<close>

fun ToPrimitive :: "jsval \<Rightarrow> prim" where
  "ToPrimitive (Prim p) = p"
| "ToPrimitive v = Str (ToString v)"

definition Number :: "jsval \<Rightarrow> prim" where
  "Number v = prim_to_number (ToPrimitive v)"

text \<open>Addition of two values of the number type.\<close>

fun number_add :: "prim \<Rightarrow> prim \<Rightarrow> prim" where
  "number_add (Num x) (Num y) = Num (x + y)"
| "number_add (Num x) PosInf = PosInf"
| "number_add (Num x) NegInf = NegInf"
| "number_add PosInf (Num y) = PosInf"
| "number_add NegInf (Num y) = NegInf"
| "number_add PosInf PosInf = PosInf"
| "number_add NegInf NegInf = NegInf"
| "number_add a b = NaN"

fun is_string :: "prim \<Rightarrow> bool" where
  "is_string (Str s) = True"
| "is_string p = False"

text \<open>\<^verbatim>\<open>a + b\<close>: concatenation when either side is a string, addition otherwise.\<close>

definition js_add :: "jsval \<Rightarrow> jsval \<Rightarrow> jsval" where
  "js_add a b =
     (let x = ToPrimitive a; y = ToPrimitive b
      in if is_string x \<or> is_string y then Prim (Str (prim_to_string x @ prim_to_string y))
         else Prim (number_add (prim_to_number x) (prim_to_number y)))"

text \<open>
  \<^verbatim>\<open>a === b\<close>. The program compares a field of a record with a string literal or
  with the numeric id, so one side is always a primitive; \<^verbatim>\<open>NaN\<close> equals nothing.
\<close>

definition strict_eq :: "jsval \<Rightarrow> jsval \<Rightarrow> bool" where
  "strict_eq a b = (a = b \<and> a \<noteq> Prim NaN)"

definition ToPropertyKey :: "jsval \<Rightarrow> string" where
  "ToPropertyKey v = ToString v"

subsection \<open>Objects\<close>

text \<open>
  The properties of \<^verbatim>\<open>Object.prototype\<close> in a browser. All are built-in functions
  held in writable data properties, but \<^verbatim>\<open>__proto__\<close>, an accessor whose getter
  returns the prototype of the object it is read from and whose setter replaces it
  when the value assigned is an object or \<^verbatim>\<open>null\<close>.
\<close>

definition object_prototype_names :: "string list" where
  "object_prototype_names =
     [''constructor'', ''__defineGetter__'', ''__defineSetter__'', ''hasOwnProperty'',
      ''__lookupGetter__'', ''__lookupSetter__'', ''isPrototypeOf'',
      ''propertyIsEnumerable'', ''toString'', ''valueOf'', ''__proto__'', ''toLocaleString'']"

definition prototype_data :: "string \<Rightarrow> jsval" where
  "prototype_data k =
     (if k = ''constructor'' then Native ''Object''
      else if k \<noteq> ''__proto__'' \<and> k \<in> set object_prototype_names then Native k
      else Prim Undefined)"

text \<open>
  Reading a property of a record (\<^verbatim>\<open>item[key]\<close>, \<^verbatim>\<open>o.CustomerID\<close>): its own field,
  or what \<^verbatim>\<open>Object.prototype\<close> holds under that name, or \<^verbatim>\<open>undefined\<close>.
\<close>

definition rec_get :: "jsrecord \<Rightarrow> string \<Rightarrow> jsval" where
  "rec_get r k =
     (case map_of r k of
        Some v \<Rightarrow> Prim v
      | None \<Rightarrow> if k = ''__proto__'' then ObjectPrototype else prototype_data k)"

text \<open>
  Reading a property of any value (\<^verbatim>\<open>c.CustomerName\<close>, where \<^verbatim>\<open>c\<close> came out of an
  index). The program reads only the fields CustomerName, City, Brand, Model and
  WarrantyPeriod this way; the own properties of strings and of functions
  (\<^verbatim>\<open>length\<close>, \<^verbatim>\<open>name\<close>) are not modelled.
\<close>

fun get_member :: "jsval \<Rightarrow> string \<Rightarrow> jsval" where
  "get_member (Rec r) k = rec_get r k"
| "get_member v k = prototype_data k"

text \<open>
  The accumulator \<^verbatim>\<open>{}\<close> of a \<^verbatim>\<open>reduce\<close>: its own properties in the order of their
  creation, and its prototype, which is \<^verbatim>\<open>Object.prototype\<close> until an assignment to
  \<^verbatim>\<open>__proto__\<close> replaces it.
\<close>

datatype prototype = ObjectProto | RecordProto jsrecord | NullProto

record jsobj =
  own :: "(string \<times> jsval) list"
  proto :: prototype

definition empty_object :: jsobj where
  "empty_object = \<lparr>own = [], proto = ObjectProto\<rparr>"

text \<open>\<^verbatim>\<open>acc[k]\<close>: the own property, or the first one found along the prototype chain.\<close>

definition obj_get :: "jsobj \<Rightarrow> string \<Rightarrow> jsval" where
  "obj_get obj k =
     (case map_of (own obj) k of
        Some v \<Rightarrow> v
      | None \<Rightarrow>
          (case proto obj of
             ObjectProto \<Rightarrow> if k = ''__proto__'' then ObjectPrototype else prototype_data k
           | RecordProto r \<Rightarrow>
               (case map_of r k of
                  Some v \<Rightarrow> Prim v
                | None \<Rightarrow> if k = ''__proto__'' then Rec r else prototype_data k)
           | NullProto \<Rightarrow> Prim Undefined))"

text \<open>
  Whether an assignment to \<open>k\<close> reaches the setter of \<^verbatim>\<open>__proto__\<close>: the name is not
  an own property, and no object before \<^verbatim>\<open>Object.prototype\<close> on the chain has it.
\<close>

definition reaches_proto_setter :: "jsobj \<Rightarrow> string \<Rightarrow> bool" where
  "reaches_proto_setter obj k =
     (k = ''__proto__'' \<and> map_of (own obj) k = None \<and>
      (case proto obj of
         ObjectProto \<Rightarrow> True
       | RecordProto r \<Rightarrow> map_of r k = None
       | NullProto \<Rightarrow> False))"

text \<open>
  \<^verbatim>\<open>acc[k] = v\<close>: an own property keeps its place and takes the new value; a new name
  is added after the others. The setter of \<^verbatim>\<open>__proto__\<close> adds nothing: it replaces the
  prototype when \<open>v\<close> is an object or \<^verbatim>\<open>null\<close> and ignores any other primitive. (The
  program assigns records and results of \<^verbatim>\<open>+\<close>, never a built-in function.)
\<close>

definition obj_set :: "jsobj \<Rightarrow> string \<Rightarrow> jsval \<Rightarrow> jsobj" where
  "obj_set obj k v =
     (if reaches_proto_setter obj k then
        (case v of
           Rec r \<Rightarrow> obj\<lparr>proto := RecordProto r\<rparr>
         | ObjectPrototype \<Rightarrow> obj\<lparr>proto := ObjectProto\<rparr>
         | Prim Null \<Rightarrow> obj\<lparr>proto := NullProto\<rparr>
         | _ \<Rightarrow> obj)
      else obj\<lparr>own := AList.update k v (own obj)\<rparr>)"

text \<open>
  An array index is the canonical text of an integer from 0 to \<open>2^32 - 2\<close>.
  \<^verbatim>\<open>Object.entries\<close> lists the own properties whose names are array indices first, in
  ascending numeric order, then the others in the order of their creation.
\<close>

definition is_array_index :: "string \<Rightarrow> bool" where
  "is_array_index k =
     (digits_in 10 k \<and> digits (number_in 10 k) = k \<and> number_in 10 k < 4294967295)"

definition entries :: "jsobj \<Rightarrow> (string \<times> jsval) list" where
  "entries obj =
     sort_key (\<lambda>(k, v). number_in 10 k) (filter (\<lambda>(k, v). is_array_index k) (own obj))
     @ filter (\<lambda>(k, v). \<not> is_array_index k) (own obj)"

section \<open>Helpers\<close>

subsection \<open>indexBy, groupCount, groupSum\<close>

definition indexBy :: "jsrecord list \<Rightarrow> string \<Rightarrow> jsobj" where
  "indexBy items key =
     foldl (\<lambda>acc item. obj_set acc (ToPropertyKey (rec_get item key)) (Rec item))
       empty_object items"

definition groupCount :: "jsrecord list \<Rightarrow> string \<Rightarrow> jsobj" where
  "groupCount items key =
     foldl (\<lambda>acc item.
         obj_set acc (ToPropertyKey (rec_get item key))
           (js_add (js_or (obj_get acc (ToPropertyKey (rec_get item key))) (Prim (Num 0)))
              (Prim (Num 1))))
       empty_object items"

definition groupSum :: "jsrecord list \<Rightarrow> string \<Rightarrow> string \<Rightarrow> jsobj" where
  "groupSum items key valueKey =
     foldl (\<lambda>acc item.
         obj_set acc (ToPropertyKey (rec_get item key))
           (js_add (js_or (obj_get acc (ToPropertyKey (rec_get item key))) (Prim (Num 0)))
              (rec_get item valueKey)))
       empty_object items"

subsection \<open>escapeHTML\<close>

text \<open>
  \<^verbatim>\<open>String.prototype.replaceAll\<close> with a string pattern: the occurrences are found
  from left to right without overlap; an empty pattern matches before every character
  and at the end. The replacement texts of this program hold no \<^verbatim>\<open>$\<close>, so the
  replacement is inserted as it is.
\<close>

function replaceAll :: "string \<Rightarrow> string \<Rightarrow> string \<Rightarrow> string" where
  "replaceAll s pat rep =
     (if pat = [] then rep @ concat (map (\<lambda>c. c # rep) s)
      else if s = [] then []
      else if prefix pat s then rep @ replaceAll (drop (length pat) s) pat rep
      else hd s # replaceAll (tl s) pat rep)"
  by pat_completeness auto
termination
  by (relation "measure (\<lambda>(s, pat, rep). length s)") auto

declare replaceAll.simps [simp del]

definition escapeHTML :: "jsval \<Rightarrow> string" where
  \<open>escapeHTML str =
     replaceAll (replaceAll (replaceAll (replaceAll (replaceAll
       (ToString (nullish_or str (Prim (Str ''''))))
       ''&'' ''&amp;'')
       ''<'' ''&lt;'')
       ''>'' ''&gt;'')
       [CHR 0x22] ''&quot;'')
       [CHR 0x27] ''&#039;''\<close>

text \<open>The table of the five reserved characters and their entities.\<close>

definition html_entity :: "char \<Rightarrow> string" where
  "html_entity c =
     (if c = CHR ''&'' then ''&amp;''
      else if c = CHR ''<'' then ''&lt;''
      else if c = CHR ''>'' then ''&gt;''
      else if c = CHR 0x22 then ''&quot;''
      else if c = CHR 0x27 then ''&#039;''
      else [c])"

subsection \<open>The page and the network\<close>

text \<open>
  A page is modelled by the containers it holds, each under its \<^verbatim>\<open>id\<close> with the last
  content written to it, and by the decoded parameters of its query string. Containers
  are independent of each other, and markup written to a container is kept as text: the
  elements a browser would build from it, or remove with the content it replaces, are
  not modelled, so nothing below is claimed about which containers exist after markup
  has been written. \<^verbatim>\<open>fetch\<close> is a map from the path of a dataset to its
  parsed records; \<open>None\<close> is a request or a parse that fails, which rejects the promise.
  \<^verbatim>\<open>Intl.NumberFormat\<close> is a parameter of the functions that format an amount.
\<close>

datatype content = TextContent string | InnerHTML string

record page =
  elems :: "string \<rightharpoonup> content"
  params :: "(string \<times> string) list"

datatype error = LoadFailed

type_synonym network = "string \<Rightarrow> jsrecord list option"

definition loadJSON :: "network \<Rightarrow> string \<Rightarrow> error + jsrecord list" where
  "loadJSON net path = (case net path of None \<Rightarrow> Inl LoadFailed | Some records \<Rightarrow> Inr records)"

text \<open>\<^verbatim>\<open>await\<close>: a rejected promise ends the function, a fulfilled one gives its value.\<close>

definition await :: "error + 'a \<Rightarrow> ('a \<Rightarrow> error + 'b) \<Rightarrow> error + 'b" where
  "await r f = (case r of Inl e \<Rightarrow> Inl e | Inr x \<Rightarrow> f x)"

definition getParam :: "page \<Rightarrow> string \<Rightarrow> jsval" where
  "getParam pg name = (case map_of (params pg) name of None \<Rightarrow> Prim Null | Some v \<Rightarrow> Prim (Str v))"

text \<open>The text a DOM property takes from a value: \<^verbatim>\<open>null\<close> is the empty text.\<close>

definition dom_string :: "jsval \<Rightarrow> string" where
  "dom_string v = (if v = Prim Null then [] else ToString v)"


definition setHTML :: "string \<Rightarrow> jsval \<Rightarrow> page \<Rightarrow> page" where
  "setHTML ident v pg =
     (if elems pg ident = None then pg
      else pg\<lparr>elems := (elems pg)(ident \<mapsto> InnerHTML (dom_string v))\<rparr>)"

text \<open>\<^verbatim>\<open>el.innerHTML = html\<close> for an element the function holds.\<close>

definition assign_innerHTML :: "string \<Rightarrow> string \<Rightarrow> page \<Rightarrow> page" where
  "assign_innerHTML ident html pg = pg\<lparr>elems := (elems pg)(ident \<mapsto> InnerHTML html)\<rparr>"


subsection \<open>Sales dashboard\<close>


subsection \<open>Orders list\<close>

text \<open>
  The label of an order's customer, written the same way in \<^verbatim>\<open>loadOrdersTable\<close> and in
  \<^verbatim>\<open>loadOrderDetail\<close>.
\<close>

definition orderCustomerLabel :: "jsobj \<Rightarrow> jsrecord \<Rightarrow> string" where
  \<open>orderCustomerLabel customerById ordr =
     (let c = obj_get customerById (ToPropertyKey (rec_get ordr ''CustomerID''))
      in if truthy c
         then escapeHTML (get_member c ''CustomerName'') @ '' (''
              @ escapeHTML (get_member c ''City'') @ '')''
         else ''#'' @ ToString (rec_get ordr ''CustomerID''))\<close>

definition ordersRow :: "(jsval \<Rightarrow> string) \<Rightarrow> jsobj \<Rightarrow> jsrecord \<Rightarrow> string" where
  \<open>ordersRow formatTRY customerById ordr =
     (let customerLabel = orderCustomerLabel customerById ordr
      in ''\<newline>      <tr onclick="location.href='' @ [CHR 0x27] @ ''order.html?id=''
         @ ToString (rec_get ordr ''OrderID'') @ [CHR 0x27] @ ''">\<newline>        <td>''
         @ ToString (rec_get ordr ''OrderID'') @ ''</td>\<newline>        <td>''
         @ customerLabel @ ''</td>\<newline>        <td>#''
         @ ToString (rec_get ordr ''StoreID'') @ ''</td>\<newline>        <td>''
         @ ToString (rec_get ordr ''OrderDate'') @ ''</td>\<newline>        <td>''
         @ escapeHTML (rec_get ordr ''Status'') @ ''</td>\<newline>        <td class="right">''
         @ formatTRY (rec_get ordr ''TotalAmount'') @ ''</td>\<newline>      </tr>\<newline>    '')\<close>

definition loadOrdersTable :: "(jsval \<Rightarrow> string) \<Rightarrow> network \<Rightarrow> page \<Rightarrow> error + page" where
  \<open>loadOrdersTable formatTRY net pg =
     (if elems pg ''ordersBody'' = None then Inr pg
      else
        await (loadJSON net ''data/orders.json'') (\<lambda>orders.
        await (loadJSON net ''data/customers.json'') (\<lambda>customers.
          let customerById = indexBy customers ''CustomerID''
          in Inr (assign_innerHTML ''ordersBody''
                    (concat (map (ordersRow formatTRY customerById) orders)) pg))))\<close>

subsection \<open>Order detail\<close>

text \<open>The dash and the multiplication sign of the templates, in UTF-8.\<close>

definition em_dash :: string where
  "em_dash = [CHR 0xE2, CHR 0x80, CHR 0x94]"

definition times_sign :: string where
  "times_sign = [CHR 0xC3, CHR 0x97]"

definition orderItemLine :: "(jsval \<Rightarrow> string) \<Rightarrow> jsobj \<Rightarrow> jsrecord \<Rightarrow> string" where
  \<open>orderItemLine formatTRY productById i =
     (let p = obj_get productById (ToPropertyKey (rec_get i ''ProductID''));
          prodLabel =
            (if truthy p
             then escapeHTML (get_member p ''Brand'') @ '' '' @ escapeHTML (get_member p ''Model'')
                  @ '' (ID '' @ ToString (rec_get i ''ProductID'') @ '')''
             else ''Product '' @ ToString (rec_get i ''ProductID''))
      in ''<li>'' @ prodLabel @ '' '' @ em_dash @ '' '' @ ToString (rec_get i ''Quantity'')
         @ '' '' @ times_sign @ '' '' @ formatTRY (rec_get i ''UnitPrice'') @ ''</li>'')\<close>

definition loadOrderDetail :: "(jsval \<Rightarrow> string) \<Rightarrow> network \<Rightarrow> page \<Rightarrow> error + page" where
  \<open>loadOrderDetail formatTRY net pg =
     (if elems pg ''orderInfo'' = None then Inr pg
      else
        let orderId = Prim (Number (getParam pg ''id''))
        in if \<not> truthy orderId then Inr pg
        else
        await (loadJSON net ''data/orders.json'') (\<lambda>orders.
        await (loadJSON net ''data/order_items.json'') (\<lambda>items.
        await (loadJSON net ''data/payments.json'') (\<lambda>payments.
        await (loadJSON net ''data/deliveries.json'') (\<lambda>deliveries.
        await (loadJSON net ''data/customers.json'') (\<lambda>customers.
        await (loadJSON net ''data/products.json'') (\<lambda>products.
          let customerById = indexBy customers ''CustomerID'';
              productById = indexBy products ''ProductID''
          in case find (\<lambda>ordr. strict_eq (rec_get ordr ''OrderID'') orderId) orders of
               None \<Rightarrow> Inr pg
             | Some order \<Rightarrow>
                 let customerLabel = orderCustomerLabel customerById order;
                     pg1 = setHTML ''orderInfo'' (Prim (Str (
                         ''\<newline>    <h3>Order #'' @ ToString (rec_get order ''OrderID'')
                         @ ''</h3>\<newline>    <p>Status: <strong>''
                         @ escapeHTML (rec_get order ''Status'')
                         @ ''</strong></p>\<newline>    <p>Customer: '' @ customerLabel
                         @ ''</p>\<newline>    <p>Total: <strong>''
                         @ formatTRY (rec_get order ''TotalAmount'')
                         @ ''</strong></p>\<newline>  ''))) pg;
                     orderItems = filter (\<lambda>i. strict_eq (rec_get i ''OrderID'') orderId) items;
                     pg2 =
                       (if elems pg1 ''itemsList'' = None then pg1
                        else assign_innerHTML ''itemsList''
                               (concat (map (orderItemLine formatTRY productById) orderItems)) pg1);
                     pg3 = setHTML ''paymentInfo''
                       (case find (\<lambda>p. strict_eq (rec_get p ''OrderID'') orderId) payments of
                          Some payment \<Rightarrow> Prim (Str (
                            ''<h3>Payment</h3><p>'' @ escapeHTML (rec_get payment ''PaymentMethod'')
                            @ '' '' @ em_dash @ '' '' @ formatTRY (rec_get payment ''Amount'')
                            @ ''</p>''))
                        | None \<Rightarrow> Prim (Str ''<h3>Payment</h3><p class="muted">No payment record</p>''))
                       pg2;
                     pg4 = setHTML ''deliveryInfo''
                       (case find (\<lambda>d. strict_eq (rec_get d ''OrderID'') orderId) deliveries of
                          Some delivery \<Rightarrow> Prim (Str (
                            ''<h3>Delivery</h3>\<newline>       <p>''
                            @ escapeHTML (rec_get delivery ''ShippingCompany'')
                            @ ''</p>\<newline>       <p>Tracking: ''
                            @ escapeHTML (rec_get delivery ''TrackingNumber'')
                            @ ''</p>\<newline>       <p>Status: ''
                            @ escapeHTML (rec_get delivery ''Status'') @ ''</p>''))
                        | None \<Rightarrow> Prim (Str ''<h3>Delivery</h3><p class="muted">No delivery record</p>''))
                       pg3
                 in Inr pg4)))))))\<close>

subsection \<open>After-sales dashboard\<close>

text \<open>The count of requests per product, written out in \<^verbatim>\<open>loadServiceDashboard\<close>.\<close>

definition byProduct :: "jsrecord list \<Rightarrow> jsobj" where
  \<open>byProduct services =
     foldl (\<lambda>acc s.
         obj_set acc (ToPropertyKey (rec_get s ''ProductID''))
           (js_add (js_or (obj_get acc (ToPropertyKey (rec_get s ''ProductID''))) (Prim (Num 0)))
              (Prim (Num 1))))
       empty_object services\<close>



subsection \<open>Service requests list\<close>



subsection \<open>Service detail\<close>

definition loadServiceDetail :: "network \<Rightarrow> page \<Rightarrow> error + page" where
  \<open>loadServiceDetail net pg =
     (if elems pg ''serviceInfo'' = None then Inr pg
      else
        let ident = Prim (Number (getParam pg ''id''))
        in if \<not> truthy ident then Inr pg
        else
        await (loadJSON net ''data/service_requests.json'') (\<lambda>services.
        await (loadJSON net ''data/customers.json'') (\<lambda>customers.
        await (loadJSON net ''data/products.json'') (\<lambda>products.
          let customerById = indexBy customers ''CustomerID'';
              productById = indexBy products ''ProductID''
          in case find (\<lambda>x. strict_eq (rec_get x ''ServiceID'') ident) services of
               None \<Rightarrow> Inr pg
             | Some s \<Rightarrow>
                 let c = obj_get customerById (ToPropertyKey (rec_get s ''CustomerID''));
                     p = obj_get productById (ToPropertyKey (rec_get s ''ProductID''));
                     customerLabel =
                       (if truthy c
                        then escapeHTML (get_member c ''CustomerName'') @ '' (''
                             @ escapeHTML (get_member c ''City'') @ '')''
                        else ''#'' @ ToString (rec_get s ''CustomerID''));
                     productLabel =
                       (if truthy p
                        then escapeHTML (get_member p ''Brand'') @ '' ''
                             @ escapeHTML (get_member p ''Model'') @ '' (Warranty: ''
                             @ ToString (get_member p ''WarrantyPeriod'') @ '' mo)''
                        else ''#'' @ ToString (rec_get s ''ProductID''))
                 in Inr (setHTML ''serviceInfo'' (Prim (Str (
                      ''\<newline>    <h3>Service Request #'' @ ToString (rec_get s ''ServiceID'')
                      @ ''</h3>\<newline>    <p>Status: <strong>''
                      @ escapeHTML (rec_get s ''Status'')
                      @ ''</strong></p>\<newline>    <p>Customer: '' @ customerLabel
                      @ ''</p>\<newline>    <p>Product: '' @ productLabel
                      @ ''</p>\<newline>    <p>Date: '' @ ToString (rec_get s ''RequestDate'')
                      @ ''</p>\<newline>    <h4 style="margin-top:14px;">Issue Description</h4>\<newline>    <p>''
                      @ escapeHTML (rec_get s ''IssueDescription'') @ ''</p>\<newline>  ''))) pg)))))\<close>

section \<open>Notions the claims are stated with\<close>

text \<open>The distinct elements of a list, in the order of their first appearance.\<close>

fun first_appearance :: "'a list \<Rightarrow> 'a list" where
  "first_appearance [] = []"
| "first_appearance (x # xs) = x # first_appearance (filter (\<lambda>y. y \<noteq> x) xs)"

text \<open>
  The order in which an object enumerates property names created in the order \<open>ks\<close>:
  the array indices first, ascending, then the other names as they were created.
\<close>

definition enumeration_order :: "string list \<Rightarrow> string list" where
  "enumeration_order ks =
     sort_key (number_in 10) (filter is_array_index ks) @ filter (\<lambda>k. \<not> is_array_index k) ks"

text \<open>
  The sum of the values of a list of entries, and the sum of a field over a list of
  records, both as the program sums the payments:
  \<^verbatim>\<open>reduce((sum, p) => sum + p.Amount, 0)\<close>.
\<close>

definition sum_values :: "(string \<times> jsval) list \<Rightarrow> jsval" where
  "sum_values es = foldl (\<lambda>sum (k, v). js_add sum v) (Prim (Num 0)) es"

definition sum_field :: "jsrecord list \<Rightarrow> string \<Rightarrow> jsval" where
  "sum_field items valueKey = foldl (\<lambda>sum p. js_add sum (rec_get p valueKey)) (Prim (Num 0)) items"

text \<open>The property key under which a record is indexed or grouped by the field \<open>key\<close>.\<close>

definition key_of :: "string \<Rightarrow> jsrecord \<Rightarrow> string" where
  "key_of key item = ToPropertyKey (rec_get item key)"

text \<open>Names created one after the other: \<open>add_keys ks new\<close> adds those of \<open>new\<close> not yet there.\<close>

definition add_keys :: "'a list \<Rightarrow> 'a list \<Rightarrow> 'a list" where
  "add_keys ks new = foldl (\<lambda>ks k. if k \<in> set ks then ks else ks @ [k]) ks new"

text \<open>
  The number a value holds, the sum of the numbers held by a list of entries, and the
  entries that all hold numbers.
\<close>

fun number_of :: "jsval \<Rightarrow> rat" where
  "number_of (Prim (Num x)) = x"
| "number_of v = 0"

definition total :: "(string \<times> jsval) list \<Rightarrow> rat" where
  "total ps = sum_list (map (\<lambda>(k, v). number_of v) ps)"

definition numeric :: "(string \<times> jsval) list \<Rightarrow> bool" where
  "numeric ps = (\<forall>(k, v)\<in>set ps. \<exists>x. v = Prim (Num x))"


text \<open>The content of a container after a render function has ended.\<close>

definition content_after :: "error + page \<Rightarrow> string \<Rightarrow> content option" where
  "content_after r ident = (case r of Inl e \<Rightarrow> None | Inr pg' \<Rightarrow> elems pg' ident)"

section \<open>Properties of escapeHTML\<close>

lemma replaceAll_char:
  "replaceAll s [p] rep = concat (map (\<lambda>c. if c = p then rep else [c]) s)"
proof (induction s)
  case Nil
  show ?case by (simp add: replaceAll.simps)
next
  case (Cons a s)
  then show ?case by (subst replaceAll.simps) auto
qed

lemma escapeHTML_text:
  "escapeHTML v = concat (map html_entity (ToString (nullish_or v (Prim (Str '''')))))"
proof -
  have "replaceAll (replaceAll (replaceAll (replaceAll (replaceAll t
          ''&'' ''&amp;'') ''<'' ''&lt;'') ''>'' ''&gt;'') [CHR 0x22] ''&quot;'')
          [CHR 0x27] ''&#039;'' = concat (map html_entity t)" for t
    by (induction t) (simp_all add: replaceAll_char html_entity_def)
  then show ?thesis by (simp add: escapeHTML_def)
qed

lemma escapeHTML_Str: "escapeHTML (Prim (Str s)) = concat (map html_entity s)"
  by (simp add: escapeHTML_text nullish_or_def)

lemma html_entity_no_reserved:
  "set (concat (map html_entity s)) \<inter> {CHR ''<'', CHR ''>'', CHR 0x22, CHR 0x27} = {}"
  by (induction s) (auto simp: html_entity_def)

lemma html_entity_append:
  "concat (map html_entity (a @ b)) = concat (map html_entity a) @ concat (map html_entity b)"
  by simp

text \<open>
  Claim C4. For every input string, \<^verbatim>\<open>escapeHTML\<close> replaces each occurrence of the five
  reserved characters by its entity: the result is the concatenation of the entities of
  the characters of the input. So the result never contains the text \<^verbatim>\<open><script>\<close>, and
  where the input contained it the result contains \<^verbatim>\<open>&lt;script&gt;\<close> instead.
\<close>

theorem escapeHTML_no_script:
  "escapeHTML (Prim (Str s)) = concat (map html_entity s)
   \<and> \<not> sublist ''<script>'' (escapeHTML (Prim (Str s)))
   \<and> (sublist ''<script>'' s \<longrightarrow> sublist ''&lt;script&gt;'' (escapeHTML (Prim (Str s))))"
proof (intro conjI impI)
  show "escapeHTML (Prim (Str s)) = concat (map html_entity s)"
    by (rule escapeHTML_Str)
next
  show "\<not> sublist ''<script>'' (escapeHTML (Prim (Str s)))"
  proof
    assume "sublist ''<script>'' (escapeHTML (Prim (Str s)))"
    then have "set ''<script>'' \<subseteq> set (concat (map html_entity s))"
      unfolding escapeHTML_Str by (rule set_mono_sublist)
    with html_entity_no_reserved [of s] show False by auto
  qed
next
  assume "sublist ''<script>'' s"
  then obtain a b where s: "s = a @ ''<script>'' @ b"
    by (auto simp: sublist_def)
  have "concat (map html_entity ''<script>'') = ''&lt;script&gt;''"
    by (simp add: html_entity_def)
  then have "escapeHTML (Prim (Str s))
      = concat (map html_entity a) @ ''&lt;script&gt;'' @ concat (map html_entity b)"
    unfolding escapeHTML_Str s by simp
  then show "sublist ''&lt;script&gt;'' (escapeHTML (Prim (Str s)))"
    unfolding sublist_def by blast
qed

theorem escapeHTML_no_script_witness:
  "sublist ''<script>'' ''a<script>b''
   \<and> escapeHTML (Prim (Str ''a<script>b'')) = ''a&lt;script&gt;b''
   \<and> \<not> sublist ''<script>'' (escapeHTML (Prim (Str ''a<script>b'')))
   \<and> sublist ''&lt;script&gt;'' (escapeHTML (Prim (Str ''a<script>b'')))"
proof -
  have h: "sublist ''<script>'' ''a<script>b''"
    unfolding sublist_def by (rule exI [of _ "''a''"], rule exI [of _ "''b''"]) simp
  have e: "concat (map html_entity ''a<script>b'') = ''a&lt;script&gt;b''"
    by (simp add: html_entity_def)
  note t = escapeHTML_no_script [of "''a<script>b''"]
  from t e have 1: "escapeHTML (Prim (Str ''a<script>b'')) = ''a&lt;script&gt;b''"
    by (simp only:)
  from t have 2: "\<not> sublist ''<script>'' (escapeHTML (Prim (Str ''a<script>b'')))"
    by blast
  from t h have 3: "sublist ''&lt;script&gt;'' (escapeHTML (Prim (Str ''a<script>b'')))"
    by blast
  from h 1 2 3 show ?thesis by blast
qed

text \<open>
  Claim C9. \<^verbatim>\<open>escapeHTML\<close> returns the empty string for \<^verbatim>\<open>null\<close> and for
  \<^verbatim>\<open>undefined\<close>: the input is replaced by the empty string before it is converted, so
  the texts \<^verbatim>\<open>null\<close> and \<^verbatim>\<open>undefined\<close> never appear and nothing is raised.
\<close>

theorem escapeHTML_nullish:
  "escapeHTML (Prim Null) = [] \<and> escapeHTML (Prim Undefined) = []"
  by (simp add: escapeHTML_text nullish_or_def)

section \<open>Enumeration order of the groups\<close>

lemma add_keys_first_appearance:
  "add_keys ks new = ks @ first_appearance (filter (\<lambda>k. k \<notin> set ks) new)"
proof (induction new arbitrary: ks)
  case Nil
  show ?case by (simp add: add_keys_def)
next
  case (Cons k new)
  have step: "add_keys ks (k # new) = add_keys (if k \<in> set ks then ks else ks @ [k]) new"
    by (simp add: add_keys_def)
  show ?case
  proof (cases "k \<in> set ks")
    case True
    then show ?thesis using Cons.IH [of ks] step by simp
  next
    case False
    have "filter (\<lambda>y. y \<noteq> k) (filter (\<lambda>k. k \<notin> set ks) new)
        = filter (\<lambda>x. x \<notin> set (ks @ [k])) new"
      by (induction new) auto
    then show ?thesis using False Cons.IH [of "ks @ [k]"] step by simp
  qed
qed

lemma js_add_plain: "\<exists>p. js_add a b = Prim p \<and> p \<noteq> Null"
proof -
  have "number_add x y \<noteq> Null" for x y
    by (induction x y rule: number_add.induct) simp_all
  then show ?thesis by (auto simp: js_add_def Let_def)
qed

lemma obj_set_plain:
  assumes "proto obj = ObjectProto" and "v = Prim p" and "p \<noteq> Null"
  shows "obj_set obj k v =
     (if k = ''__proto__'' \<and> map_of (own obj) k = None then obj
      else obj\<lparr>own := AList.update k v (own obj)\<rparr>)"
  using assms by (cases p) (auto simp: obj_set_def reaches_proto_setter_def)

lemma map_of_None_keys: "map_of ps k = None \<longleftrightarrow> k \<notin> set (map fst ps)"
  by (simp add: map_of_eq_None_iff)

lemma fold_keys:
  assumes "\<And>acc item. \<exists>p. val acc item = Prim p \<and> p \<noteq> Null"
    and "proto acc = ObjectProto" and "''__proto__'' \<notin> set (map fst (own acc))"
  shows "proto (foldl (\<lambda>acc item. obj_set acc (kf item) (val acc item)) acc items) = ObjectProto
    \<and> map fst (own (foldl (\<lambda>acc item. obj_set acc (kf item) (val acc item)) acc items))
      = add_keys (map fst (own acc)) (filter (\<lambda>k. k \<noteq> ''__proto__'') (map kf items))"
  using assms(2,3)
proof (induction items arbitrary: acc)
  case Nil
  then show ?case by (simp add: add_keys_def)
next
  case (Cons item items)
  obtain p where p: "val acc item = Prim p" "p \<noteq> Null"
    using assms(1) by blast
  let ?acc' = "obj_set acc (kf item) (val acc item)"
  have set: "?acc' = (if kf item = ''__proto__'' \<and> map_of (own acc) (kf item) = None then acc
      else acc\<lparr>own := AList.update (kf item) (val acc item) (own acc)\<rparr>)"
    using obj_set_plain [OF Cons.prems(1) p] .
  show ?case
  proof (cases "kf item = ''__proto__''")
    case True
    with Cons.prems set have "?acc' = acc"
      by (simp add: map_of_None_keys)
    with Cons.IH [of acc] Cons.prems True show ?thesis
      by simp
  next
    case False
    with set have acc': "?acc' = acc\<lparr>own := AList.update (kf item) (val acc item) (own acc)\<rparr>"
      by simp
    have 1: "proto ?acc' = ObjectProto" using acc' Cons.prems by simp
    have k: "map fst (own ?acc') =
       (if kf item \<in> set (map fst (own acc)) then map fst (own acc) else map fst (own acc) @ [kf item])"
      using acc' by (simp add: update_keys)
    have 2: "''__proto__'' \<notin> set (map fst (own ?acc'))"
      using k Cons.prems False by auto
    from Cons.IH [OF 1 2] False k show ?thesis
      by (simp add: add_keys_def)
  qed
qed

lemma map_fst_insort_key:
  "map fst (insort_key (\<lambda>(k, v). f k) p ps) = insort_key f (fst p) (map fst ps)"
  by (induction ps) (auto simp: case_prod_unfold)

lemma map_fst_sort_key:
  "map fst (sort_key (\<lambda>(k, v). f k) ps) = sort_key f (map fst ps)"
  by (induction ps) (simp_all add: map_fst_insort_key)

lemma map_fst_entries: "map fst (entries obj) = enumeration_order (map fst (own obj))"
proof -
  have "map fst (filter (\<lambda>(k, v). P k) ps) = filter P (map fst ps)" for P and ps :: "(string \<times> jsval) list"
    by (induction ps) auto
  then show ?thesis
    by (simp add: entries_def enumeration_order_def map_fst_sort_key)
qed

lemma groupCount_keys:
  "map fst (own (groupCount items key))
     = first_appearance (filter (\<lambda>k. k \<noteq> ''__proto__'') (map (key_of key) items))"
proof -
  have "map fst (own (groupCount items key))
      = add_keys [] (filter (\<lambda>k. k \<noteq> ''__proto__'') (map (key_of key) items))"
    unfolding groupCount_def key_of_def
    using fold_keys [where acc = empty_object and kf = "\<lambda>item. ToPropertyKey (rec_get item key)"
        and val = "\<lambda>acc item. js_add (js_or (obj_get acc (ToPropertyKey (rec_get item key))) (Prim (Num 0))) (Prim (Num 1))"
        and items = items]
    by (simp add: js_add_plain empty_object_def)
  then show ?thesis by (simp add: add_keys_first_appearance)
qed

lemma groupSum_keys:
  "map fst (own (groupSum items key valueKey))
     = first_appearance (filter (\<lambda>k. k \<noteq> ''__proto__'') (map (key_of key) items))"
proof -
  have "map fst (own (groupSum items key valueKey))
      = add_keys [] (filter (\<lambda>k. k \<noteq> ''__proto__'') (map (key_of key) items))"
    unfolding groupSum_def key_of_def
    using fold_keys [where acc = empty_object and kf = "\<lambda>item. ToPropertyKey (rec_get item key)"
        and val = "\<lambda>acc item. js_add (js_or (obj_get acc (ToPropertyKey (rec_get item key))) (Prim (Num 0))) (rec_get item valueKey)"
        and items = items]
    by (simp add: js_add_plain empty_object_def)
  then show ?thesis by (simp add: add_keys_first_appearance)
qed

lemma byProduct_groupCount: "byProduct services = groupCount services ''ProductID''"
  by (simp add: byProduct_def groupCount_def)

lemma entries_order:
  "map fst (entries (groupCount items key))
     = enumeration_order (first_appearance (filter (\<lambda>k. k \<noteq> ''__proto__'') (map (key_of key) items)))
   \<and> map fst (entries (groupSum items key valueKey))
     = enumeration_order (first_appearance (filter (\<lambda>k. k \<noteq> ''__proto__'') (map (key_of key) items)))
   \<and> map fst (entries (byProduct items))
     = enumeration_order (first_appearance (filter (\<lambda>k. k \<noteq> ''__proto__'') (map (key_of ''ProductID'') items)))"
  by (simp add: map_fst_entries groupCount_keys groupSum_keys byProduct_groupCount)

lemma enumeration_order_plain:
  "\<forall>k\<in>set ks. \<not> is_array_index k \<Longrightarrow> enumeration_order ks = ks"
  by (simp add: enumeration_order_def)

section \<open>Sums over the groups\<close>

lemma prototype_data_plain: "k \<notin> set object_prototype_names \<Longrightarrow> prototype_data k = Prim Undefined"
  by (simp add: prototype_data_def object_prototype_names_def)

lemma obj_get_plain:
  assumes "proto obj = ObjectProto" and "k \<notin> set object_prototype_names"
  shows "obj_get obj k = (case map_of (own obj) k of Some v \<Rightarrow> v | None \<Rightarrow> Prim Undefined)"
proof -
  from assms(2) have "k \<noteq> ''__proto__''"
    by (auto simp: object_prototype_names_def)
  with assms show ?thesis
    by (simp add: obj_get_def prototype_data_plain split: option.splits)
qed

lemma numeric_lookup:
  "numeric ps \<Longrightarrow> map_of ps k = Some v \<Longrightarrow> \<exists>x. v = Prim (Num x)"
  by (auto simp: numeric_def dest: map_of_SomeD)

lemma js_or_zero:
  "js_or (Prim (Num x)) (Prim (Num 0)) = Prim (Num x)"
  "js_or (Prim Undefined) (Prim (Num 0)) = Prim (Num 0)"
  by (auto simp: js_or_def)

lemma js_add_Num: "js_add (Prim (Num x)) (Prim (Num y)) = Prim (Num (x + y))"
  by (simp add: js_add_def)

lemma total_update:
  "numeric ps \<Longrightarrow>
   total (AList.update k (Prim (Num (number_of (case map_of ps k of Some v \<Rightarrow> v | None \<Rightarrow> Prim (Num 0)) + x))) ps)
     = total ps + x"
proof (induction ps)
  case Nil
  show ?case by (simp add: total_def)
next
  case (Cons p ps)
  obtain k' v' where p: "p = (k', v')" by (cases p)
  from Cons.prems have n: "numeric ps" by (simp add: numeric_def)
  show ?case
  proof (cases "k' = k")
    case True
    then show ?thesis by (simp add: p total_def)
  next
    case False
    then show ?thesis using Cons.IH [OF n] by (simp add: p total_def)
  qed
qed

lemma numeric_update:
  "numeric ps \<Longrightarrow> numeric (AList.update k (Prim (Num y)) ps)"
  by (induction ps) (auto simp: numeric_def)

text \<open>One step of \<^verbatim>\<open>groupCount\<close> or \<^verbatim>\<open>groupSum\<close> on a numeric accumulator.\<close>

lemma add_step:
  fixes x :: rat
  assumes "proto obj = ObjectProto" and "numeric (own obj)"
    and "k \<notin> set object_prototype_names"
  defines "obj' \<equiv> obj_set obj k (js_add (js_or (obj_get obj k) (Prim (Num 0))) (Prim (Num x)))"
  shows "proto obj' = ObjectProto \<and> numeric (own obj') \<and> total (own obj') = total (own obj) + x"
proof -
  let ?old = "case map_of (own obj) k of Some v \<Rightarrow> v | None \<Rightarrow> Prim (Num 0)"
  have val: "js_add (js_or (obj_get obj k) (Prim (Num 0))) (Prim (Num x)) = Prim (Num (number_of ?old + x))"
  proof (cases "map_of (own obj) k")
    case None
    then show ?thesis
      by (simp add: obj_get_plain [OF assms(1,3)] js_or_zero js_add_Num)
  next
    case (Some v)
    with assms(2) obtain y where "v = Prim (Num y)"
      using numeric_lookup by blast
    with Some show ?thesis
      by (simp add: obj_get_plain [OF assms(1,3)] js_or_zero js_add_Num)
  qed
  from assms(3) have "k \<noteq> ''__proto__''"
    by (auto simp: object_prototype_names_def)
  then have "obj' = obj\<lparr>own := AList.update k (Prim (Num (number_of ?old + x))) (own obj)\<rparr>"
    unfolding obj'_def val using obj_set_plain [OF assms(1), of _ "Num (number_of ?old + x)" k]
    by simp
  then show ?thesis
    using assms(1,2) by (simp add: numeric_update total_update)
qed

lemma add_fold:
  fixes xf :: "'a \<Rightarrow> rat" and kf :: "'a \<Rightarrow> string" and items :: "'a list"
  assumes "proto acc = ObjectProto" and "numeric (own acc)"
    and "\<forall>item\<in>set items. kf item \<notin> set object_prototype_names"
  defines "res \<equiv> foldl (\<lambda>acc item.
      obj_set acc (kf item) (js_add (js_or (obj_get acc (kf item)) (Prim (Num 0))) (Prim (Num (xf item))))) acc items"
  shows "proto res = ObjectProto \<and> numeric (own res)
    \<and> total (own res) = total (own acc) + sum_list (map xf items)"
  unfolding res_def using assms(1-3)
proof (induction items arbitrary: acc)
  case Nil
  then show ?case by simp
next
  case (Cons item items)
  let ?acc' = "obj_set acc (kf item) (js_add (js_or (obj_get acc (kf item)) (Prim (Num 0))) (Prim (Num (xf item))))"
  from Cons.prems have k: "kf item \<notin> set object_prototype_names" by simp
  note s = add_step [OF Cons.prems(1,2) k, of "xf item"]
  from Cons.prems(3) have rest: "\<forall>item\<in>set items. kf item \<notin> set object_prototype_names" by simp
  from Cons.IH [of ?acc'] s rest show ?case
    by simp
qed

lemma sum_values_numeric:
  "numeric es \<Longrightarrow> foldl (\<lambda>sum (k, v). js_add sum v) (Prim (Num a)) es = Prim (Num (a + total es))"
proof (induction es arbitrary: a)
  case Nil
  show ?case by (simp add: total_def)
next
  case (Cons e es)
  obtain k v where e: "e = (k, v)" by (cases e)
  from Cons.prems obtain x where v: "v = Prim (Num x)" and n: "numeric es"
    by (auto simp: numeric_def e)
  from Cons.IH [OF n, of "a + x"] show ?case
    by (simp add: e v js_add_Num total_def add.assoc)
qed

lemma mset_entries: "mset (entries obj) = mset (own obj)"
  by (simp add: entries_def)

lemma total_entries: "total (entries obj) = total (own obj)"
proof -
  have "total ps = sum_mset (image_mset (\<lambda>(k, v). number_of v) (mset ps))" for ps
    unfolding total_def by (metis mset_map sum_mset_sum_list)
  then show ?thesis by (simp add: mset_entries)
qed

lemma numeric_entries: "numeric (entries obj) = numeric (own obj)"
proof -
  have "set (entries obj) = set (own obj)"
    using mset_entries [of obj] by (metis set_mset_mset)
  then show ?thesis by (simp add: numeric_def)
qed

lemma sum_values_entries:
  "numeric (own obj) \<Longrightarrow> sum_values (entries obj) = Prim (Num (total (own obj)))"
  using sum_values_numeric [of "entries obj" 0]
  by (simp add: sum_values_def numeric_entries total_entries)

lemma groupCount_total:
  assumes "\<forall>item\<in>set items. key_of key item \<notin> set object_prototype_names"
  shows "numeric (own (groupCount items key)) \<and> total (own (groupCount items key)) = of_nat (length items)"
proof -
  have "sum_list (map (\<lambda>item. 1::rat) items) = of_nat (length items)"
    by (induction items) simp_all
  then show ?thesis
    using add_fold [where acc = empty_object and kf = "key_of key" and xf = "\<lambda>item. 1" and items = items] assms
    by (simp add: groupCount_def key_of_def empty_object_def numeric_def total_def)
qed

lemma groupCount_sum_plain:
  assumes "\<forall>item\<in>set items. key_of key item \<notin> set object_prototype_names"
  shows "sum_values (entries (groupCount items key)) = Prim (Num (of_nat (length items)))"
  using groupCount_total [OF assms] by (simp add: sum_values_entries)

lemma sum_field_numeric:
  assumes "\<forall>item\<in>set items. rec_get item valueKey = Prim (Num (xf item))"
  shows "foldl (\<lambda>sum p. js_add sum (rec_get p valueKey)) (Prim (Num a)) items
     = Prim (Num (a + sum_list (map xf items)))"
  using assms
proof (induction items arbitrary: a)
  case Nil
  show ?case by simp
next
  case (Cons item items)
  then show ?case by (simp add: js_add_Num add.assoc)
qed

lemma groupSum_total:
  assumes "\<forall>item\<in>set items. key_of key item \<notin> set object_prototype_names"
    and "\<forall>item\<in>set items. rec_get item valueKey = Prim (Num (xf item))"
  shows "numeric (own (groupSum items key valueKey))
     \<and> total (own (groupSum items key valueKey)) = sum_list (map xf items)"
proof -
  have "groupSum items key valueKey = foldl (\<lambda>acc item.
      obj_set acc (key_of key item) (js_add (js_or (obj_get acc (key_of key item)) (Prim (Num 0))) (Prim (Num (xf item))))) empty_object items"
    unfolding groupSum_def key_of_def using assms(2)
    by (intro foldl_cong) simp_all
  then show ?thesis
    using add_fold [where acc = empty_object and kf = "key_of key" and xf = xf and items = items] assms(1)
    by (simp add: empty_object_def numeric_def total_def)
qed

lemma groupSum_sum_plain:
  assumes "\<forall>item\<in>set items. key_of key item \<notin> set object_prototype_names"
    and "\<forall>item\<in>set items. \<exists>x. rec_get item valueKey = Prim (Num x)"
  shows "sum_values (entries (groupSum items key valueKey)) = sum_field items valueKey"
proof -
  have v: "\<forall>item\<in>set items. rec_get item valueKey = Prim (Num (number_of (rec_get item valueKey)))"
    using assms(2) by auto
  from groupSum_total [OF assms(1) v] sum_field_numeric [OF v, of 0]
  show ?thesis by (simp add: sum_values_entries sum_field_def)
qed

section \<open>Lookups in an index\<close>

lemma obj_set_own:
  "k \<noteq> ''__proto__'' \<Longrightarrow> obj_set obj k v = obj\<lparr>own := AList.update k v (own obj)\<rparr>"
  by (simp add: obj_set_def reaches_proto_setter_def)

lemma indexBy_fold:
  assumes "''__proto__'' \<notin> set (map kf items)"
  shows "foldl (\<lambda>acc item. obj_set acc (kf item) (Rec item)) acc items
     = acc\<lparr>own := foldl (\<lambda>ps item. AList.update (kf item) (Rec item) ps) (own acc) items\<rparr>"
  using assms
proof (induction items arbitrary: acc)
  case Nil
  show ?case by simp
next
  case (Cons item items)
  then have "kf item \<noteq> ''__proto__''" by auto
  with Cons show ?case by (simp add: obj_set_own)
qed

lemma fold_update_other:
  "k \<notin> set (map kf items) \<Longrightarrow>
   map_of (foldl (\<lambda>ps item. AList.update (kf item) (Rec item) ps) ps items) k = map_of ps k"
  by (induction items arbitrary: ps) (auto simp: update_conv')

lemma fold_update_member:
  "distinct (map kf items) \<Longrightarrow> item \<in> set items \<Longrightarrow>
   map_of (foldl (\<lambda>ps item. AList.update (kf item) (Rec item) ps) ps items) (kf item) = Some (Rec item)"
proof (induction items arbitrary: ps)
  case Nil
  then show ?case by simp
next
  case (Cons x xs)
  show ?case
  proof (cases "item = x")
    case True
    with Cons.prems have "kf x \<notin> set (map kf xs)" by simp
    from fold_update_other [OF this] True show ?thesis
      by (simp add: update_conv')
  next
    case False
    with Cons show ?thesis by simp
  qed
qed

lemma indexBy_own:
  assumes "''__proto__'' \<notin> set (map (key_of key) items)"
  shows "indexBy items key
     = \<lparr>own = foldl (\<lambda>ps item. AList.update (key_of key item) (Rec item) ps) [] items,
        proto = ObjectProto\<rparr>"
  using indexBy_fold [OF assms, of empty_object]
  by (simp add: indexBy_def key_of_def empty_object_def)

lemma indexBy_present:
  assumes "''__proto__'' \<notin> set (map (key_of key) items)"
    and "distinct (map (key_of key) items)" and "item \<in> set items"
  shows "obj_get (indexBy items key) (key_of key item) = Rec item"
  by (simp add: indexBy_own [OF assms(1)] obj_get_def fold_update_member [OF assms(2,3)])

lemma indexBy_absent:
  assumes "''__proto__'' \<notin> set (map (key_of key) items)"
    and "k \<notin> set (map (key_of key) items)" and "k \<notin> set object_prototype_names"
  shows "obj_get (indexBy items key) k = Prim Undefined"
proof -
  have "proto (indexBy items key) = ObjectProto"
    by (simp add: indexBy_own [OF assms(1)])
  from obj_get_plain [OF this assms(3)] show ?thesis
    by (simp add: indexBy_own [OF assms(1)] fold_update_other [OF assms(2)])
qed

lemma indexBy_lookup_plain:
  assumes "distinct (map (key_of key) items)"
    and "''__proto__'' \<notin> set (map (key_of key) items)"
  shows "(\<forall>item\<in>set items. obj_get (indexBy items key) (key_of key item) = Rec item)
    \<and> (\<forall>v. ToPropertyKey v \<notin> set (map (key_of key) items)
            \<and> ToPropertyKey v \<notin> set object_prototype_names
          \<longrightarrow> obj_get (indexBy items key) (ToPropertyKey v) = Prim Undefined)"
  using assms by (auto intro: indexBy_present indexBy_absent)

subsection \<open>Text of numbers\<close>

lemma digit_char_digit: "n < 10 \<Longrightarrow> digit_char n \<in> set ''0123456789''"
  unfolding digit_char_def by (rule nth_mem) simp

lemma digits_hd: "digits n \<noteq> [] \<and> hd (digits n) \<in> set ''0123456789''"
proof (induction n rule: digits.induct)
  case (1 n)
  show ?case
  proof (cases "n < 10")
    case True
    then show ?thesis
      using digit_char_digit [of n] by (subst (1 2) digits.simps) simp
  next
    case False
    with 1 show ?thesis
      by (subst (1 2) digits.simps) simp
  qed
qed

lemma positive_to_string_hd:
  "positive_to_string x \<noteq> [] \<and> hd (positive_to_string x) \<in> set ''0123456789''"
proof -
  obtain p q where pq: "quotient_of x = (p, q)" by (cases "quotient_of x")
  obtain s0 e0 where s0: "scale10 1100 p q 0 = (s0, e0)" by (cases "scale10 1100 p q 0")
  obtain s e where s: "strip10 s0 e0 = (s, e)" by (cases "strip10 s0 e0")
  note d = digits_hd [of s]
  have t: "0 < n \<Longrightarrow> take n (digits s) \<noteq> [] \<and> hd (take n (digits s)) = hd (digits s)" for n
    using d by (cases "digits s"; cases n) simp_all
  show ?thesis
    unfolding positive_to_string_def pq s0 s Let_def prod.case
    using d t [of 1] t [of "nat (int (length (digits s)) + e)"]
    by (auto simp: hd_append)
qed

lemma number_to_string_hd:
  "number_to_string x \<noteq> [] \<and> hd (number_to_string x) \<in> set ''0123456789-''"
  using positive_to_string_hd [of x] positive_to_string_hd [of "- x"]
  by (auto simp: number_to_string_def)

lemma number_key_plain: "number_to_string x \<notin> set object_prototype_names"
proof
  assume a: "number_to_string x \<in> set object_prototype_names"
  have "\<forall>k\<in>set object_prototype_names. hd k \<notin> set ''0123456789-''"
    by (simp add: object_prototype_names_def)
  with a number_to_string_hd [of x] show False by blast
qed

subsection \<open>Labels\<close>

lemma label_fallback_plain:
  assumes "key_of ''CustomerID'' ordr \<notin> set (map (key_of ''CustomerID'') customers)"
    and "key_of ''CustomerID'' ordr \<notin> set object_prototype_names"
    and "''__proto__'' \<notin> set (map (key_of ''CustomerID'') customers)"
  shows "orderCustomerLabel (indexBy customers ''CustomerID'') ordr
       = ''#'' @ ToString (rec_get ordr ''CustomerID'')"
proof -
  from indexBy_absent [OF assms(3) assms(1) assms(2)]
  have "obj_get (indexBy customers ''CustomerID'') (ToPropertyKey (rec_get ordr ''CustomerID''))
      = Prim Undefined"
    by (simp add: key_of_def)
  then show ?thesis
    by (simp add: orderCustomerLabel_def)
qed

text \<open>Numeric ids meet the two conditions on names: the text of a number is no such name.\<close>

lemma label_fallback_numeric:
  assumes "rec_get ordr ''CustomerID'' = Prim (Num n)"
    and "\<forall>c\<in>set customers. \<exists>m. rec_get c ''CustomerID'' = Prim (Num m)"
    and "key_of ''CustomerID'' ordr \<notin> set (map (key_of ''CustomerID'') customers)"
  shows "orderCustomerLabel (indexBy customers ''CustomerID'') ordr = ''#'' @ number_to_string n"
proof -
  have p: "''__proto__'' \<notin> set (map (key_of ''CustomerID'') customers)"
  proof
    assume "''__proto__'' \<in> set (map (key_of ''CustomerID'') customers)"
    then obtain c where "c \<in> set customers" "key_of ''CustomerID'' c = ''__proto__''"
      by auto
    with assms(2) obtain m where "number_to_string m = ''__proto__''"
      by (auto simp: key_of_def ToPropertyKey_def)
    with number_key_plain [of m] show False
      by (simp add: object_prototype_names_def)
  qed
  have k: "key_of ''CustomerID'' ordr \<notin> set object_prototype_names"
    using assms(1) number_key_plain [of n] by (simp add: key_of_def ToPropertyKey_def)
  from label_fallback_plain [OF assms(3) k p] assms(1) show ?thesis
    by simp
qed

section \<open>Missing containers\<close>














section \<open>The claims on indexing and aggregation\<close>

text \<open>The equations that evaluate the model on a concrete input.\<close>

lemma replicate_numeral_unfold: "replicate (numeral k) x = x # replicate (pred_numeral k) x"
  by (simp add: numeral_eq_Suc)

lemmas number_text =
  number_to_string_def positive_to_string_def scale10.simps strip10.simps digits.simps
  digit_char_def exponent_text_def replicate_numeral_unfold

lemmas object_ops =
  obj_set_def obj_get_def reaches_proto_setter_def empty_object_def ToPropertyKey_def
  rec_get_def prototype_data_def object_prototype_names_def js_add_def js_or_def key_of_def

lemmas entries_ops =
  entries_def enumeration_order_def is_array_index_def digits_in_def number_in_def digit_value_def

text \<open>
  Claim C2, as amended. \<^verbatim>\<open>groupCount\<close>, \<^verbatim>\<open>groupSum\<close> and the count written out in
  \<^verbatim>\<open>loadServiceDashboard\<close> enumerate their groups in this order: the keys that are array
  indices (the canonical text of an integer from 0 to \<open>2^32 - 2\<close>, as a numeric
  \<^verbatim>\<open>ProductID\<close> gives) first, in ascending numeric order, then the other keys in the
  order of their first appearance; a record whose key is \<^verbatim>\<open>__proto__\<close> forms no group.
  So the order is that of first appearance on every input with no such key. The claim
  as stated, first appearance for numeric keys too, fails on the products 2, 1.
\<close>

theorem group_enumeration_order:
  "map fst (entries (groupCount items key))
     = enumeration_order (first_appearance (filter (\<lambda>k. k \<noteq> ''__proto__'') (map (key_of key) items)))
   \<and> map fst (entries (groupSum items key valueKey))
     = enumeration_order (first_appearance (filter (\<lambda>k. k \<noteq> ''__proto__'') (map (key_of key) items)))
   \<and> map fst (entries (byProduct items))
     = enumeration_order (first_appearance (filter (\<lambda>k. k \<noteq> ''__proto__'') (map (key_of ''ProductID'') items)))
   \<and> ((\<forall>item\<in>set items. \<not> is_array_index (key_of key item) \<and> key_of key item \<noteq> ''__proto__'')
        \<longrightarrow> map fst (entries (groupCount items key)) = first_appearance (map (key_of key) items)
          \<and> map fst (entries (groupSum items key valueKey)) = first_appearance (map (key_of key) items))"
proof -
  have plain: "enumeration_order (first_appearance (filter (\<lambda>k. k \<noteq> ''__proto__'') ks)) = first_appearance ks"
    if "\<forall>k\<in>set ks. \<not> is_array_index k \<and> k \<noteq> ''__proto__''" for ks
  proof -
    from that have f: "filter (\<lambda>k. k \<noteq> ''__proto__'') ks = ks" by (induction ks) auto
    have "set (first_appearance xs) \<subseteq> set xs" for xs :: "string list"
      by (induction xs rule: first_appearance.induct) auto
    with that have "\<forall>k\<in>set (first_appearance ks). \<not> is_array_index k" by blast
    then show ?thesis by (simp add: f enumeration_order_plain)
  qed
  show ?thesis
    using entries_order [of items key valueKey] plain [of "map (key_of key) items"]
    by simp
qed

theorem group_enumeration_order_witness:
  "\<not> is_array_index ''Open'' \<and> \<not> is_array_index ''Closed''
   \<and> map (key_of ''Status'')
        [[(''Status'', Str ''Open'')], [(''Status'', Str ''Closed'')], [(''Status'', Str ''Open'')]]
       = [''Open'', ''Closed'', ''Open'']
   \<and> map fst (entries (groupCount
        [[(''Status'', Str ''Open'')], [(''Status'', Str ''Closed'')], [(''Status'', Str ''Open'')]]
        ''Status'')) = [''Open'', ''Closed'']"
proof -
  let ?items = "[[(''Status'', Str ''Open'')], [(''Status'', Str ''Closed'')], [(''Status'', Str ''Open'')]]"
  have i: "\<not> is_array_index ''Open''" "\<not> is_array_index ''Closed''"
    by (simp_all add: entries_ops)
  have k: "map (key_of ''Status'') ?items = [''Open'', ''Closed'', ''Open'']"
    by (simp add: object_ops)
  have h: "\<forall>item\<in>set ?items. \<not> is_array_index (key_of ''Status'' item) \<and> key_of ''Status'' item \<noteq> ''__proto__''"
    using i by (simp add: object_ops)
  have "map fst (entries (groupCount ?items ''Status'')) = first_appearance (map (key_of ''Status'') ?items)"
    using group_enumeration_order [of ?items "''Status''" "''Amount''"] h by blast
  then have "map fst (entries (groupCount ?items ''Status'')) = [''Open'', ''Closed'']"
    unfolding k by simp
  with i k show ?thesis by blast
qed

theorem group_enumeration_order_counterexample:
  "map fst (entries (groupCount [[(''ProductID'', Num 2)], [(''ProductID'', Num 1)]] ''ProductID''))
     = [''1'', ''2'']
   \<and> first_appearance (map (key_of ''ProductID'') [[(''ProductID'', Num 2)], [(''ProductID'', Num 1)]])
     = [''2'', ''1'']
   \<and> map fst (entries (byProduct [[(''ProductID'', Num 2)], [(''ProductID'', Num 1)]]))
     = [''1'', ''2'']"
  by (simp add: groupCount_def byProduct_def object_ops entries_ops number_text)

text \<open>
  Claim C6, as amended. For every sequence of records and group field such that no
  group key is the name of a property of \<^verbatim>\<open>Object.prototype\<close>, the counts of
  \<^verbatim>\<open>groupCount\<close> add up to the length of the sequence. The claim as stated fails on a
  record whose key is \<^verbatim>\<open>__proto__\<close>: the accumulator reads the prototype under that
  name and the assignment is dropped, so no group is counted.
\<close>

theorem groupCount_sum:
  assumes "\<forall>item\<in>set items. key_of key item \<notin> set object_prototype_names"
  shows "sum_values (entries (groupCount items key)) = Prim (Num (of_nat (length items)))"
  using assms by (rule groupCount_sum_plain)

theorem groupCount_sum_witness:
  "key_of ''Status'' [(''Status'', Str ''Open'')] \<notin> set object_prototype_names
   \<and> key_of ''Status'' [(''Status'', Str ''Closed'')] \<notin> set object_prototype_names
   \<and> sum_values (entries (groupCount
        [[(''Status'', Str ''Open'')], [(''Status'', Str ''Closed'')], [(''Status'', Str ''Open'')]]
        ''Status'')) = Prim (Num 3)"
proof -
  let ?items = "[[(''Status'', Str ''Open'')], [(''Status'', Str ''Closed'')], [(''Status'', Str ''Open'')]]"
  have k: "key_of ''Status'' [(''Status'', Str ''Open'')] \<notin> set object_prototype_names"
    "key_of ''Status'' [(''Status'', Str ''Closed'')] \<notin> set object_prototype_names"
    by (simp_all add: object_ops)
  then have "\<forall>item\<in>set ?items. key_of ''Status'' item \<notin> set object_prototype_names"
    by simp
  from groupCount_sum [OF this] k show ?thesis by simp
qed

theorem groupCount_sum_counterexample:
  "entries (groupCount [[(''Status'', Str ''__proto__'')]] ''Status'') = []
   \<and> sum_values (entries (groupCount [[(''Status'', Str ''__proto__'')]] ''Status'')) = Prim (Num 0)
   \<and> sum_values (entries (groupCount [[(''Status'', Str ''__proto__'')]] ''Status''))
       \<noteq> Prim (Num (of_nat (length [[(''Status'', Str ''__proto__'')]])))"
  by (simp add: groupCount_def sum_values_def object_ops entries_ops)

text \<open>
  Claim C7, as amended. For every sequence of records whose value field holds a number
  in every record and whose group keys are not names of properties of
  \<^verbatim>\<open>Object.prototype\<close>, the sums of \<^verbatim>\<open>groupSum\<close> add up to the sum of the value field
  over the whole sequence, in exact arithmetic. The claim as stated fails on a record
  whose key is \<^verbatim>\<open>__proto__\<close>, which forms no group, and on a record without the value
  field: the group's sum becomes \<^verbatim>\<open>NaN\<close>, which \<^verbatim>\<open>||\<close> replaces by 0 at the next record,
  while the sum over the sequence stays \<^verbatim>\<open>NaN\<close>.
\<close>

theorem groupSum_sum:
  assumes "\<forall>item\<in>set items. key_of key item \<notin> set object_prototype_names"
    and "\<forall>item\<in>set items. \<exists>x. rec_get item valueKey = Prim (Num x)"
  shows "sum_values (entries (groupSum items key valueKey)) = sum_field items valueKey"
  using assms by (rule groupSum_sum_plain)

theorem groupSum_sum_witness:
  "key_of ''PaymentMethod'' [(''PaymentMethod'', Str ''Card''), (''Amount'', Num 100)]
     \<notin> set object_prototype_names
   \<and> key_of ''PaymentMethod'' [(''PaymentMethod'', Str ''Cash''), (''Amount'', Num 40)]
     \<notin> set object_prototype_names
   \<and> key_of ''PaymentMethod'' [(''PaymentMethod'', Str ''Card''), (''Amount'', Num 2)]
     \<notin> set object_prototype_names
   \<and> rec_get [(''PaymentMethod'', Str ''Card''), (''Amount'', Num 100)] ''Amount'' = Prim (Num 100)
   \<and> rec_get [(''PaymentMethod'', Str ''Cash''), (''Amount'', Num 40)] ''Amount'' = Prim (Num 40)
   \<and> rec_get [(''PaymentMethod'', Str ''Card''), (''Amount'', Num 2)] ''Amount'' = Prim (Num 2)
   \<and> sum_values (entries (groupSum
        [[(''PaymentMethod'', Str ''Card''), (''Amount'', Num 100)],
         [(''PaymentMethod'', Str ''Cash''), (''Amount'', Num 40)],
         [(''PaymentMethod'', Str ''Card''), (''Amount'', Num 2)]]
        ''PaymentMethod'' ''Amount'')) = Prim (Num 142)"
proof -
  let ?a = "[(''PaymentMethod'', Str ''Card''), (''Amount'', Num 100)]"
  let ?b = "[(''PaymentMethod'', Str ''Cash''), (''Amount'', Num 40)]"
  let ?c = "[(''PaymentMethod'', Str ''Card''), (''Amount'', Num 2)]"
  have k: "key_of ''PaymentMethod'' ?a \<notin> set object_prototype_names"
    "key_of ''PaymentMethod'' ?b \<notin> set object_prototype_names"
    "key_of ''PaymentMethod'' ?c \<notin> set object_prototype_names"
    by (simp_all add: object_ops)
  have v: "rec_get ?a ''Amount'' = Prim (Num 100)" "rec_get ?b ''Amount'' = Prim (Num 40)"
    "rec_get ?c ''Amount'' = Prim (Num 2)"
    by (simp_all add: rec_get_def)
  have h1: "\<forall>item\<in>set [?a, ?b, ?c]. key_of ''PaymentMethod'' item \<notin> set object_prototype_names"
    using k by simp
  have h2: "\<forall>item\<in>set [?a, ?b, ?c]. \<exists>x. rec_get item ''Amount'' = Prim (Num x)"
    using v by simp
  have "sum_field [?a, ?b, ?c] ''Amount'' = Prim (Num 142)"
    by (simp add: sum_field_def js_add_def rec_get_def)
  with groupSum_sum [OF h1 h2] have "sum_values (entries (groupSum [?a, ?b, ?c] ''PaymentMethod'' ''Amount'')) = Prim (Num 142)"
    by simp
  with k v show ?thesis by blast
qed

theorem groupSum_sum_counterexample:
  "sum_values (entries (groupSum [[(''g'', Str ''__proto__''), (''v'', Num 5)]] ''g'' ''v'')) = Prim (Num 0)
   \<and> sum_field [[(''g'', Str ''__proto__''), (''v'', Num 5)]] ''v'' = Prim (Num 5)
   \<and> sum_values (entries (groupSum [[(''g'', Str ''a'')], [(''g'', Str ''a''), (''v'', Num 5)]] ''g'' ''v''))
       = Prim (Num 5)
   \<and> sum_field [[(''g'', Str ''a'')], [(''g'', Str ''a''), (''v'', Num 5)]] ''v'' = Prim NaN"
  by (simp add: groupSum_def sum_values_def sum_field_def object_ops entries_ops)

text \<open>
  Claim C1, as amended. For every sequence of records and key field such that the
  property keys of the records (the texts of their key values) are pairwise different
  and none is \<^verbatim>\<open>__proto__\<close>, looking up the key of each record in the index built by
  \<^verbatim>\<open>indexBy\<close> returns that record, and looking up a value whose text is no record's key
  and no name of a property of \<^verbatim>\<open>Object.prototype\<close> returns \<^verbatim>\<open>undefined\<close>. The claim as
  stated fails in three ways: an absent key such as \<^verbatim>\<open>constructor\<close> finds the inherited
  function; the different key values 1 and \<^verbatim>\<open>"1"\<close> share one property; and a record whose
  key is \<^verbatim>\<open>__proto__\<close> becomes the prototype of the index, which then finds its fields.
\<close>

theorem indexBy_lookup:
  assumes "distinct (map (key_of key) items)"
    and "''__proto__'' \<notin> set (map (key_of key) items)"
  shows "(\<forall>item\<in>set items. obj_get (indexBy items key) (key_of key item) = Rec item)
    \<and> (\<forall>v. ToPropertyKey v \<notin> set (map (key_of key) items)
            \<and> ToPropertyKey v \<notin> set object_prototype_names
          \<longrightarrow> obj_get (indexBy items key) (ToPropertyKey v) = Prim Undefined)"
  using assms by (rule indexBy_lookup_plain)

theorem indexBy_lookup_witness:
  "map (key_of ''id'') [[(''id'', Num 1), (''name'', Str ''Ada'')], [(''id'', Num 2), (''name'', Str ''Bob'')]]
     = [''1'', ''2'']
   \<and> ToPropertyKey (Prim (Num 3)) = ''3''
   \<and> obj_get (indexBy [[(''id'', Num 1), (''name'', Str ''Ada'')], [(''id'', Num 2), (''name'', Str ''Bob'')]] ''id'')
        (key_of ''id'' [(''id'', Num 1), (''name'', Str ''Ada'')]) = Rec [(''id'', Num 1), (''name'', Str ''Ada'')]
   \<and> obj_get (indexBy [[(''id'', Num 1), (''name'', Str ''Ada'')], [(''id'', Num 2), (''name'', Str ''Bob'')]] ''id'')
        (key_of ''id'' [(''id'', Num 2), (''name'', Str ''Bob'')]) = Rec [(''id'', Num 2), (''name'', Str ''Bob'')]
   \<and> obj_get (indexBy [[(''id'', Num 1), (''name'', Str ''Ada'')], [(''id'', Num 2), (''name'', Str ''Bob'')]] ''id'')
        (ToPropertyKey (Prim (Num 3))) = Prim Undefined"
proof -
  let ?a = "[(''id'', Num 1), (''name'', Str ''Ada'')]"
  let ?b = "[(''id'', Num 2), (''name'', Str ''Bob'')]"
  have k: "map (key_of ''id'') [?a, ?b] = [''1'', ''2'']"
    by (simp add: object_ops number_text)
  have t: "ToPropertyKey (Prim (Num 3)) = ''3''"
    by (simp add: object_ops number_text)
  have d: "distinct (map (key_of ''id'') [?a, ?b])" and p: "''__proto__'' \<notin> set (map (key_of ''id'') [?a, ?b])"
    unfolding k by simp_all
  have n: "ToPropertyKey (Prim (Num 3)) \<notin> set (map (key_of ''id'') [?a, ?b])
      \<and> ToPropertyKey (Prim (Num 3)) \<notin> set object_prototype_names"
    unfolding k t by (simp add: object_prototype_names_def)
  note th = indexBy_lookup [OF d p]
  from th have 1: "obj_get (indexBy [?a, ?b] ''id'') (key_of ''id'' ?a) = Rec ?a"
    and 2: "obj_get (indexBy [?a, ?b] ''id'') (key_of ''id'' ?b) = Rec ?b"
    by simp_all
  from th n have 3: "obj_get (indexBy [?a, ?b] ''id'') (ToPropertyKey (Prim (Num 3))) = Prim Undefined"
    by blast
  from k t 1 2 3 show ?thesis by blast
qed

theorem indexBy_lookup_counterexample:
  "obj_get (indexBy [] ''id'') (ToPropertyKey (Prim (Str ''constructor''))) = Native ''Object''
   \<and> rec_get [(''id'', Num 1), (''name'', Str ''Ada'')] ''id''
       \<noteq> rec_get [(''id'', Str ''1''), (''name'', Str ''Bob'')] ''id''
   \<and> obj_get (indexBy [[(''id'', Num 1), (''name'', Str ''Ada'')], [(''id'', Str ''1''), (''name'', Str ''Bob'')]] ''id'')
        (ToPropertyKey (rec_get [(''id'', Num 1), (''name'', Str ''Ada'')] ''id''))
       = Rec [(''id'', Str ''1''), (''name'', Str ''Bob'')]
   \<and> obj_get (indexBy [[(''id'', Str ''__proto__''), (''name'', Str ''Ada'')]] ''id'')
        (ToPropertyKey (Prim (Str ''name''))) = Prim (Str ''Ada'')"
  by (simp add: indexBy_def object_ops number_text)

text \<open>
  Claim C3, as amended. An order whose \<^verbatim>\<open>CustomerID\<close> has a text that is the key of no
  customer of the loaded set and is no name of a property of \<^verbatim>\<open>Object.prototype\<close>, no
  customer being keyed \<^verbatim>\<open>__proto__\<close>, gets the label \<^verbatim>\<open>#\<close> followed by that id, in
  \<^verbatim>\<open>loadOrdersTable\<close> and in \<^verbatim>\<open>loadOrderDetail\<close>, which compute the label the same way;
  the row of the orders table holds the label in its second cell. Nothing is raised:
  the label is a value. Every numeric id that no customer has is such an id. The claim
  as stated, the placeholder for every id that resolves to no customer, fails for the
  id \<^verbatim>\<open>constructor\<close>, which finds the inherited function and is labelled with the two
  empty fields of it, and for an id that names a field of a customer keyed
  \<^verbatim>\<open>__proto__\<close>.
\<close>

theorem orderCustomerLabel_fallback:
  assumes "key_of ''CustomerID'' ordr \<notin> set (map (key_of ''CustomerID'') customers)"
    and "key_of ''CustomerID'' ordr \<notin> set object_prototype_names"
    and "''__proto__'' \<notin> set (map (key_of ''CustomerID'') customers)"
  shows "orderCustomerLabel (indexBy customers ''CustomerID'') ordr
       = ''#'' @ ToString (rec_get ordr ''CustomerID'')
    \<and> sublist (''<td>#'' @ ToString (rec_get ordr ''CustomerID'') @ ''</td>'')
        (ordersRow formatTRY (indexBy customers ''CustomerID'') ordr)"
proof -
  have l: "orderCustomerLabel (indexBy customers ''CustomerID'') ordr
      = ''#'' @ ToString (rec_get ordr ''CustomerID'')"
    using assms by (rule label_fallback_plain)
  have \<open>ordersRow formatTRY (indexBy customers ''CustomerID'') ordr
      = (''\<newline>      <tr onclick="location.href='' @ [CHR 0x27] @ ''order.html?id=''
         @ ToString (rec_get ordr ''OrderID'') @ [CHR 0x27] @ ''">\<newline>        <td>''
         @ ToString (rec_get ordr ''OrderID'') @ ''</td>\<newline>        '')
        @ (''<td>#'' @ ToString (rec_get ordr ''CustomerID'') @ ''</td>'')
        @ (''\<newline>        <td>#''
         @ ToString (rec_get ordr ''StoreID'') @ ''</td>\<newline>        <td>''
         @ ToString (rec_get ordr ''OrderDate'') @ ''</td>\<newline>        <td>''
         @ escapeHTML (rec_get ordr ''Status'') @ ''</td>\<newline>        <td class="right">''
         @ formatTRY (rec_get ordr ''TotalAmount'') @ ''</td>\<newline>      </tr>\<newline>    '')\<close>
    by (simp add: ordersRow_def l)
  then have "sublist (''<td>#'' @ ToString (rec_get ordr ''CustomerID'') @ ''</td>'')
        (ordersRow formatTRY (indexBy customers ''CustomerID'') ordr)"
    unfolding sublist_def by blast
  with l show ?thesis by blast
qed

theorem orderCustomerLabel_fallback_witness:
  "key_of ''CustomerID'' [(''OrderID'', Num 1), (''CustomerID'', Num 999)] = ''999''
   \<and> map (key_of ''CustomerID'') [[(''CustomerID'', Num 5), (''CustomerName'', Str ''Ada''), (''City'', Str ''Izmir'')]]
       = [''5'']
   \<and> ''999'' \<notin> set object_prototype_names
   \<and> orderCustomerLabel
        (indexBy [[(''CustomerID'', Num 5), (''CustomerName'', Str ''Ada''), (''City'', Str ''Izmir'')]] ''CustomerID'')
        [(''OrderID'', Num 1), (''CustomerID'', Num 999)] = ''#999''"
proof -
  let ?o = "[(''OrderID'', Num 1), (''CustomerID'', Num 999)]"
  let ?c = "[(''CustomerID'', Num 5), (''CustomerName'', Str ''Ada''), (''City'', Str ''Izmir'')]"
  have 1: "key_of ''CustomerID'' ?o = ''999''" and 2: "map (key_of ''CustomerID'') [?c] = [''5'']"
    by (simp_all add: object_ops number_text)
  have 3: "''999'' \<notin> set object_prototype_names"
    by (simp add: object_prototype_names_def)
  have t: "ToString (rec_get ?o ''CustomerID'') = ''999''"
    by (simp add: rec_get_def number_text)
  have h1: "key_of ''CustomerID'' ?o \<notin> set (map (key_of ''CustomerID'') [?c])"
    unfolding 1 2 by simp
  have h2: "key_of ''CustomerID'' ?o \<notin> set object_prototype_names"
    unfolding 1 by (rule 3)
  have h3: "''__proto__'' \<notin> set (map (key_of ''CustomerID'') [?c])"
    unfolding 2 by simp
  from orderCustomerLabel_fallback [OF h1 h2 h3, of ToString]
  have "orderCustomerLabel (indexBy [?c] ''CustomerID'') ?o = ''#999''"
    unfolding t by simp
  with 1 2 3 show ?thesis by blast
qed

theorem orderCustomerLabel_fallback_counterexample:
  "key_of ''CustomerID'' [(''OrderID'', Num 1), (''CustomerID'', Str ''constructor'')]
     \<notin> set (map (key_of ''CustomerID'')
          [[(''CustomerID'', Num 5), (''CustomerName'', Str ''Ada''), (''City'', Str ''Izmir'')]])
   \<and> orderCustomerLabel
        (indexBy [[(''CustomerID'', Num 5), (''CustomerName'', Str ''Ada''), (''City'', Str ''Izmir'')]] ''CustomerID'')
        [(''OrderID'', Num 1), (''CustomerID'', Str ''constructor'')] = '' ()''
   \<and> key_of ''CustomerID'' [(''OrderID'', Num 2), (''CustomerID'', Str ''City'')]
     \<notin> set (map (key_of ''CustomerID'')
          [[(''CustomerID'', Str ''__proto__''), (''CustomerName'', Str ''Ada''), (''City'', Str ''Izmir'')]])
   \<and> orderCustomerLabel
        (indexBy [[(''CustomerID'', Str ''__proto__''), (''CustomerName'', Str ''Ada''), (''City'', Str ''Izmir'')]] ''CustomerID'')
        [(''OrderID'', Num 2), (''CustomerID'', Str ''City'')] = '' ()''"
  by (simp add: orderCustomerLabel_def indexBy_def object_ops number_text escapeHTML_text
      nullish_or_def)

section \<open>The claims on the pages\<close>

lemmas parse_ops =
  StringToNumber_def trim_def strip_start.simps white_space_def signed_decimal_def
  unsigned_decimal_def exponent_part_def digits_in_def number_in_def digit_value_def is_digit_def

lemma detail_abort:
  assumes "Number (getParam pg ''id'') = Num 0 \<or> Number (getParam pg ''id'') = NaN"
  shows "loadOrderDetail formatTRY net pg = Inr pg \<and> loadServiceDetail net pg = Inr pg"
  using assms by (auto simp: loadOrderDetail_def loadServiceDetail_def)

text \<open>
  Claim C5. When the query string of the page has no \<^verbatim>\<open>id\<close> parameter, or has one whose
  value is not numeric (\<^verbatim>\<open>Number\<close> gives \<^verbatim>\<open>NaN\<close> for it), \<^verbatim>\<open>loadOrderDetail\<close> and
  \<^verbatim>\<open>loadServiceDetail\<close> end with the page as it was: no container is changed, nothing is
  loaded and nothing is raised.
\<close>

theorem detail_without_numeric_id:
  assumes "map_of (params pg) ''id'' = None
    \<or> (\<exists>s. map_of (params pg) ''id'' = Some s \<and> StringToNumber s = NaN)"
  shows "loadOrderDetail formatTRY net pg = Inr pg \<and> loadServiceDetail net pg = Inr pg"
proof (rule detail_abort)
  from assms show "Number (getParam pg ''id'') = Num 0 \<or> Number (getParam pg ''id'') = NaN"
    by (auto simp: getParam_def Number_def)
qed

theorem detail_without_numeric_id_witness:
  "map_of (params \<lparr>elems = [''orderInfo'' \<mapsto> InnerHTML [], ''serviceInfo'' \<mapsto> InnerHTML []],
                   params = [(''page'', ''2'')]\<rparr>) ''id'' = None
   \<and> loadOrderDetail ToString (\<lambda>path. Some [])
        \<lparr>elems = [''orderInfo'' \<mapsto> InnerHTML [], ''serviceInfo'' \<mapsto> InnerHTML []],
         params = [(''page'', ''2'')]\<rparr>
       = Inr \<lparr>elems = [''orderInfo'' \<mapsto> InnerHTML [], ''serviceInfo'' \<mapsto> InnerHTML []],
              params = [(''page'', ''2'')]\<rparr>
   \<and> map_of (params \<lparr>elems = [''orderInfo'' \<mapsto> InnerHTML [], ''serviceInfo'' \<mapsto> InnerHTML []],
                   params = [(''id'', ''abc'')]\<rparr>) ''id'' = Some ''abc''
   \<and> StringToNumber ''abc'' = NaN
   \<and> loadOrderDetail ToString (\<lambda>path. Some [])
        \<lparr>elems = [''orderInfo'' \<mapsto> InnerHTML [], ''serviceInfo'' \<mapsto> InnerHTML []],
         params = [(''id'', ''abc'')]\<rparr>
       = Inr \<lparr>elems = [''orderInfo'' \<mapsto> InnerHTML [], ''serviceInfo'' \<mapsto> InnerHTML []],
              params = [(''id'', ''abc'')]\<rparr>
   \<and> loadServiceDetail (\<lambda>path. Some [])
        \<lparr>elems = [''orderInfo'' \<mapsto> InnerHTML [], ''serviceInfo'' \<mapsto> InnerHTML []],
         params = [(''id'', ''abc'')]\<rparr>
       = Inr \<lparr>elems = [''orderInfo'' \<mapsto> InnerHTML [], ''serviceInfo'' \<mapsto> InnerHTML []],
              params = [(''id'', ''abc'')]\<rparr>"
proof -
  let ?e = "[''orderInfo'' \<mapsto> InnerHTML [], ''serviceInfo'' \<mapsto> InnerHTML []]"
  let ?p1 = "\<lparr>elems = ?e, params = [(''page'', ''2'')]\<rparr>"
  let ?p2 = "\<lparr>elems = ?e, params = [(''id'', ''abc'')]\<rparr>"
  have a: "map_of (params ?p1) ''id'' = None" by simp
  have b: "map_of (params ?p2) ''id'' = Some ''abc''" by simp
  have c: "StringToNumber ''abc'' = NaN" by (simp add: parse_ops)
  from a have h1: "map_of (params ?p1) ''id'' = None
      \<or> (\<exists>s. map_of (params ?p1) ''id'' = Some s \<and> StringToNumber s = NaN)" ..
  from b c have h2: "map_of (params ?p2) ''id'' = None
      \<or> (\<exists>s. map_of (params ?p2) ''id'' = Some s \<and> StringToNumber s = NaN)" by blast
  note t1 = detail_without_numeric_id [OF h1, of ToString "\<lambda>path. Some []"]
  note t2 = detail_without_numeric_id [OF h2, of ToString "\<lambda>path. Some []"]
  from a b c t1 t2 show ?thesis by blast
qed

text \<open>
  Claim C10. The detail functions end with the page as it was whenever the converted
  id is 0 or \<^verbatim>\<open>NaN\<close>, and the parameter value \<^verbatim>\<open>0\<close>, which is numeric, converts to 0:
  for \<^verbatim>\<open>id=0\<close> no container is changed, even when a record with the id 0 exists.
\<close>

theorem detail_id_zero:
  "(Number (getParam pg ''id'') = Num 0 \<or> Number (getParam pg ''id'') = NaN
      \<longrightarrow> loadOrderDetail formatTRY net pg = Inr pg \<and> loadServiceDetail net pg = Inr pg)
   \<and> (map_of (params pg) ''id'' = Some ''0''
      \<longrightarrow> Number (getParam pg ''id'') = Num 0
        \<and> loadOrderDetail formatTRY net pg = Inr pg \<and> loadServiceDetail net pg = Inr pg)"
proof -
  have z: "StringToNumber ''0'' = Num 0" by (simp add: parse_ops)
  have "Number (getParam pg ''id'') = Num 0" if "map_of (params pg) ''id'' = Some ''0''"
    using that z by (simp add: getParam_def Number_def)
  then show ?thesis using detail_abort [of pg formatTRY net] by blast
qed

theorem detail_id_zero_witness:
  "map_of (params \<lparr>elems = [''orderInfo'' \<mapsto> InnerHTML [], ''serviceInfo'' \<mapsto> InnerHTML []],
                   params = [(''id'', ''0'')]\<rparr>) ''id'' = Some ''0''
   \<and> Number (getParam \<lparr>elems = [''orderInfo'' \<mapsto> InnerHTML [], ''serviceInfo'' \<mapsto> InnerHTML []],
                   params = [(''id'', ''0'')]\<rparr> ''id'') = Num 0
   \<and> loadOrderDetail ToString (\<lambda>path. Some [[(''OrderID'', Num 0), (''ServiceID'', Num 0)]])
        \<lparr>elems = [''orderInfo'' \<mapsto> InnerHTML [], ''serviceInfo'' \<mapsto> InnerHTML []],
         params = [(''id'', ''0'')]\<rparr>
       = Inr \<lparr>elems = [''orderInfo'' \<mapsto> InnerHTML [], ''serviceInfo'' \<mapsto> InnerHTML []],
              params = [(''id'', ''0'')]\<rparr>
   \<and> loadServiceDetail (\<lambda>path. Some [[(''OrderID'', Num 0), (''ServiceID'', Num 0)]])
        \<lparr>elems = [''orderInfo'' \<mapsto> InnerHTML [], ''serviceInfo'' \<mapsto> InnerHTML []],
         params = [(''id'', ''0'')]\<rparr>
       = Inr \<lparr>elems = [''orderInfo'' \<mapsto> InnerHTML [], ''serviceInfo'' \<mapsto> InnerHTML []],
              params = [(''id'', ''0'')]\<rparr>"
proof -
  let ?p = "\<lparr>elems = [''orderInfo'' \<mapsto> InnerHTML [], ''serviceInfo'' \<mapsto> InnerHTML []],
             params = [(''id'', ''0'')]\<rparr>"
  have a: "map_of (params ?p) ''id'' = Some ''0''" by simp
  note t = detail_id_zero [of ?p ToString "\<lambda>path. Some [[(''OrderID'', Num 0), (''ServiceID'', Num 0)]]"]
  from a t show ?thesis by blast
qed




section \<open>An example\<close>

text \<open>
  The end-to-end example of the specification: one order, its payment and no delivery.
  The amount is printed by \<^verbatim>\<open>ToString\<close> in place of the currency format.
\<close>

lemma loadOrderDetail_example:
  fixes net :: network and pg :: page
  defines "net \<equiv> (\<lambda>path.
      if path = ''data/orders.json''
        then Some [[(''OrderID'', Num 1), (''CustomerID'', Num 5), (''TotalAmount'', Num 100)]]
      else if path = ''data/payments.json''
        then Some [[(''OrderID'', Num 1), (''Amount'', Num 100), (''PaymentMethod'', Str ''Card'')]]
      else Some [])"
    and "pg \<equiv> \<lparr>elems = [''orderInfo'' \<mapsto> InnerHTML [], ''paymentInfo'' \<mapsto> InnerHTML [],
                       ''deliveryInfo'' \<mapsto> InnerHTML []],
               params = [(''id'', ''1'')]\<rparr>"
  shows \<open>content_after (loadOrderDetail ToString net pg) ''paymentInfo''
           = Some (InnerHTML (''<h3>Payment</h3><p>Card '' @ em_dash @ '' 100</p>''))
         \<and> content_after (loadOrderDetail ToString net pg) ''deliveryInfo''
           = Some (InnerHTML ''<h3>Delivery</h3><p class="muted">No delivery record</p>'')
         \<and> content_after (loadOrderDetail ToString net pg) ''orderInfo''
           = Some (InnerHTML (''\<newline>    <h3>Order #1</h3>\<newline>    <p>Status: <strong></strong></p>\<newline>    <p>Customer: #5</p>\<newline>    <p>Total: <strong>100</strong></p>\<newline>  ''))
         \<and> content_after (loadOrderDetail ToString net pg) ''itemsList'' = None\<close>
proof -
  have n: "StringToNumber ''1'' = Num 1" by (simp add: parse_ops)
  have t: "number_to_string 1 = ''1''" "number_to_string 5 = ''5''" "number_to_string 100 = ''100''"
    by (simp_all add: number_text)
  have e: "escapeHTML (Prim (Str ''Card'')) = ''Card''" "escapeHTML (Prim Undefined) = []"
    by (simp_all add: escapeHTML_text nullish_or_def html_entity_def)
  show ?thesis
    unfolding net_def pg_def
    by (simp add: content_after_def loadOrderDetail_def await_def loadJSON_def getParam_def
        Number_def n t e setHTML_def strict_eq_def rec_get_def prototype_data_def
        object_prototype_names_def orderCustomerLabel_def indexBy_def empty_object_def
        obj_get_def ToPropertyKey_def dom_string_def)
qed

lemma loadOrdersTable_returns:
  assumes "net ''data/orders.json'' = Some orders" and "net ''data/customers.json'' = Some customers"
  shows "\<exists>pg'. loadOrdersTable formatTRY net pg = Inr pg'"
  using assms by (simp add: loadOrdersTable_def await_def loadJSON_def)

end
